theory Spec2Isabelle
  imports Main
begin

unbundle bit_operations_syntax

section \<open>The performance driver \<^verbatim>\<open>apps/vo_perf.cc\<close>\<close>

text \<open>
  The driver reads its options, creates a dataset and a visual-odometry engine, feeds the
  engine one frame after the other, and finally writes what it has collected to files.
  The engine (\<^verbatim>\<open>VisualOdometryWithKeyFraming\<close>), the dataset, the option parser, the
  timer, the display and the logging functions live in headers that are no part of the
  source at hand; the driver reaches them through a small number of calls only. These
  calls are the fields of the record \<open>env\<close> below, and every function of the driver takes
  the environment as its first argument.

  Floating-point numbers (\<^verbatim>\<open>double\<close> and \<^verbatim>\<open>float\<close>) are values of an
  uninterpreted type \<open>'r\<close>. The driver adds, divides and converts them; these operations are
  fields of the environment as well, so nothing below depends on rounding.
\<close>

subsection \<open>Data\<close>

text \<open>
  Modelled from the spec: the declaration of the keyframing reason is missing; the spec
  (4.3) lists a closed set of mutually exclusive reasons, one that keeps the keyframe and
  several that force a new one.
\<close>

datatype ForceKeyframe =
  MaxTranslation | MaxRotation | LowTrackingQuality | MaxIterationsAtFinestLevel

datatype KeyframingReason = KeepOldKeyframe | ForceKeyframe ForceKeyframe

text \<open>
  Modelled from the spec: the declaration of \<^verbatim>\<open>OptimizerStatistics\<close> is missing. The
  driver reads the field \<^verbatim>\<open>numIterations\<close> into an \<^verbatim>\<open>int\<close>; the spec (3) adds the
  final cost and the converged flag.
\<close>

record 'r OptimizerStatistics =
  numIterations :: int
  finalCost :: 'r
  converged :: bool

text \<open>
  Modelled from the spec: the declaration of \<^verbatim>\<open>Result\<close> is missing. The driver reads
  \<^verbatim>\<open>pose\<close>, \<^verbatim>\<open>optimizerStatistics\<close> (a vector indexed by pyramid level) and
  \<^verbatim>\<open>keyFramingReason\<close>.
\<close>

record ('pose, 'r) Result =
  pose :: 'pose
  optimizerStatistics :: "'r OptimizerStatistics list"
  keyFramingReason :: KeyframingReason

text \<open>
  Modelled from the spec: of \<^verbatim>\<open>AlgorithmParameters\<close> the driver reads
  \<^verbatim>\<open>maxTestLevel\<close> and \<^verbatim>\<open>maxIterations\<close>; the spec (3) adds the number of pyramid
  levels. All three are C++ integers read from the configuration file.
\<close>

record AlgorithmParameters =
  numPyramidLevels :: int
  maxIterations :: int
  maxTestLevel :: int

text \<open>
  The options of the command line, with the defaults the driver registers (lines 49-53).
\<close>

record ProgramOptions =
  opt_config :: string
  opt_output :: string
  opt_numframes :: int
  opt_dontshow :: bool

definition default_options :: ProgramOptions where
  "default_options =
     \<lparr>opt_config = ''/home/halismai/code/bpvo/conf/tsukuba_stereo.cfg'',
      opt_output = '''',
      opt_numframes = 1000,
      opt_dontshow = False\<rparr>"

text \<open>
  What can stop the program before \<^verbatim>\<open>main\<close> returns:
  \<^item> \<open>LengthError\<close>: \<^verbatim>\<open>iterations.reserve(max_frames)\<close> converts a negative
    \<^verbatim>\<open>int\<close> to a \<^verbatim>\<open>size_t\<close> beyond \<^verbatim>\<open>max_size()\<close>, for which
    \<^verbatim>\<open>std::vector::reserve\<close> throws \<^verbatim>\<open>std::length_error\<close>; nothing catches it;
  \<^item> \<open>InvalidInputError\<close>: \<^verbatim>\<open>addFrame\<close> did not return a \<^verbatim>\<open>Result\<close>; the spec (7)
    names the failure of a call of the engine so. The driver has no handler for an
    exception of the engine;
  \<^item> \<open>StatsIndexOutOfRange i\<close>: at frame \<open>i\<close> the unchecked access
    \<^verbatim>\<open>result.optimizerStatistics[maxTestLevel]\<close> is outside the vector, which is
    undefined behaviour.
\<close>

datatype error = LengthError | InvalidInputError | StatsIndexOutOfRange int

text \<open>
  What the driver prints: \<^verbatim>\<open>Info\<close> and \<^verbatim>\<open>Warn\<close> with their format string (and the
  integer argument of \<^verbatim>\<open>Warn\<close>), text sent to \<^verbatim>\<open>stdout\<close>, and the progress line of
  lines 103-105 with its arguments in order: frame label, time, rate, iterations, reason
  and the constant \<^verbatim>\<open>0\<close>.
\<close>

datatype 'r event =
  Info string
| Warn string int
| Stdout string
| Progress int 'r 'r int KeyframingReason int

text \<open>
  What the driver does to the file system: the call of \<^verbatim>\<open>writeCameraPath\<close> with its
  file name and the trajectory, and a text file that was opened and its content.
\<close>

datatype 'pose fileop =
  WriteCameraPath string "'pose list"
| WriteText string string

record ('frame, 'vo, 'pose, 'r) env =
  getFrame :: "int \<Rightarrow> 'frame option"
  waitKey :: "int \<Rightarrow> int"
  addFrame :: "'vo \<Rightarrow> 'frame \<Rightarrow> error + (('pose, 'r) Result \<times> 'vo)"
  timer :: "int \<Rightarrow> 'r"
  is_open :: "string \<Rightarrow> bool"
  d_zero :: "'r"
  d_thousand :: "'r"
  d_add :: "'r \<Rightarrow> 'r \<Rightarrow> 'r"
  d_div :: "'r \<Rightarrow> 'r \<Rightarrow> 'r"
  d_of_int :: "int \<Rightarrow> 'r"
  f_of_d :: "'r \<Rightarrow> 'r"
  show_pose :: "'pose \<Rightarrow> string"
  show_float :: "'r \<Rightarrow> string"

text \<open>
  The fields of the environment, in the order above:
  \<^item> \<open>getFrame i\<close> is \<^verbatim>\<open>dataset->getFrame(i)\<close>, \<open>None\<close> for a null pointer;
  \<^item> \<open>waitKey i\<close> is what \<^verbatim>\<open>cv::waitKey(5)\<close> returns in iteration \<open>i\<close>;
  \<^item> \<open>addFrame vo frame\<close> is \<^verbatim>\<open>vo.addFrame(frame.get())\<close>: the result and the new
    state of the engine, or an error;
  \<^item> \<open>timer i\<close> is \<^verbatim>\<open>timer.stop().count()\<close> in iteration \<open>i\<close>;
  \<^item> \<open>is_open name\<close> tells whether the \<^verbatim>\<open>std::ofstream\<close> on \<open>name\<close> is open;
  \<^item> \<open>d_zero\<close> and \<open>d_thousand\<close> are the literals \<^verbatim>\<open>0.0\<close> and \<^verbatim>\<open>1000.0\<close>, \<open>d_add\<close> and
    \<open>d_div\<close> the sum and quotient of two \<^verbatim>\<open>double\<close>s, \<open>d_of_int\<close> the conversion of an
    \<^verbatim>\<open>int\<close> to \<^verbatim>\<open>double\<close>, \<open>f_of_d\<close> the conversion of a \<^verbatim>\<open>double\<close> to \<^verbatim>\<open>float\<close>;
  \<^item> \<open>show_pose\<close> and \<open>show_float\<close> are \<^verbatim>\<open>operator<<\<close> on a pose of the trajectory and
    on a \<^verbatim>\<open>float\<close>.
\<close>

text \<open>
  The local variables of \<^verbatim>\<open>main\<close> that the loop changes (lines 63-75), and what the
  program has printed so far. Modelled from the spec: the class \<^verbatim>\<open>Trajectory\<close> is
  missing; the spec (3) makes it an ordered sequence of world poses, and
  \<^verbatim>\<open>push_back\<close> adds a pose at its end.
\<close>

record ('vo, 'pose, 'r) locals =
  vo :: 'vo
  trajectory :: "'pose list"
  iterations :: "int list"
  time_ms :: "'r list"
  total_time :: 'r
  console :: "'r event list"

definition newline :: char where
  "newline = CHR 0x0A"

definition key_q :: int where
  "key_q = of_char (CHR ''q'')"

subsection \<open>The loop\<close>

text \<open>
  Lines 92-110: one frame goes through the engine. \<open>i\<close> is the loop counter \<^verbatim>\<open>f_i\<close>.
\<close>

definition warn_events :: "AlgorithmParameters \<Rightarrow> int \<Rightarrow> int \<Rightarrow> 'r event list" where
  "warn_events params i num_iters =
     (if num_iters = maxIterations params
      then [Stdout [newline], Warn (''max iterations reached at frame %d'' @ [newline]) i]
      else [])"

definition body ::
  "('frame, 'vo, 'pose, 'r) env \<Rightarrow> AlgorithmParameters \<Rightarrow> int \<Rightarrow> ('vo, 'pose, 'r) locals \<Rightarrow> 'frame
     \<Rightarrow> error + ('vo, 'pose, 'r) locals" where
  "body e params i s frame =
     (case addFrame e (vo s) frame of
        Inl err \<Rightarrow> Inl err
      | Inr (result, vo') \<Rightarrow>
          let tt = timer e i;
              total = d_add e (total_time s) (d_div e tt (d_thousand e));
              stats = optimizerStatistics result;
              l = maxTestLevel params
          in if l < 0 \<or> int (length stats) \<le> l then Inl (StatsIndexOutOfRange i)
             else
               let num_iters = numIterations (stats ! nat l) in
               Inr (s\<lparr>vo := vo',
                      total_time := total,
                      console := console s @ warn_events params i num_iters @
                        [Progress (i - 1) tt (d_div e (d_of_int e (i - 1)) total) num_iters
                           (keyFramingReason result) 0],
                      trajectory := trajectory s @ [pose result],
                      time_ms := time_ms s @ [f_of_d e tt],
                      iterations := iterations s @ [num_iters]\<rparr>))"

text \<open>
  Lines 77-111. The counter \<open>i\<close> stays below \<open>max_frames\<close>, an \<^verbatim>\<open>int\<close>, so \<^verbatim>\<open>++f_i\<close> and
  \<^verbatim>\<open>f_i - 1\<close> never overflow and the counter is an integer of HOL. The window of
  \<^verbatim>\<open>cv::imshow\<close> is no part of the model.
\<close>

function main_loop ::
  "('frame, 'vo, 'pose, 'r) env \<Rightarrow> AlgorithmParameters \<Rightarrow> int \<Rightarrow> bool \<Rightarrow> int
     \<Rightarrow> ('vo, 'pose, 'r) locals \<Rightarrow> error + ('vo, 'pose, 'r) locals" where
  "main_loop e params max_frames do_show i s =
     (if i < max_frames then
        (case getFrame e i of
           None \<Rightarrow> Inr (s\<lparr>console := console s @ [Info (''no more data'' @ [newline])]\<rparr>)
         | Some frame \<Rightarrow>
             if do_show \<and> key_q = 0xff AND waitKey e i then Inr s
             else (case body e params i s frame of
                     Inl err \<Rightarrow> Inl err
                   | Inr s' \<Rightarrow> main_loop e params max_frames do_show (i + 1) s'))
      else Inr s)"
  by pat_completeness auto
termination
  by (relation "measure (\<lambda>(e, params, max_frames, do_show, i, s). nat (max_frames - i))") auto

subsection \<open>After the loop\<close>

text \<open>
  \<^verbatim>\<open>ofs << iterations[i]\<close> prints an \<^verbatim>\<open>int\<close> in decimal.
\<close>

definition digit_char :: "nat \<Rightarrow> char" where
  "digit_char d = ''0123456789'' ! d"

fun show_nat :: "nat \<Rightarrow> string" where
  "show_nat n = (if n < 10 then [digit_char n] else show_nat (n div 10) @ [digit_char (n mod 10)])"

definition show_int :: "int \<Rightarrow> string" where
  "show_int k = (if k < 0 then CHR ''-'' # show_nat (nat (- k)) else show_nat (nat k))"

text \<open>
  Lines 122-128, 132-137 and 141-146: open the file; if it is open, write every item
  followed by \<^verbatim>\<open>"\n"\<close>; close it. A stream that is not open leaves no file.
\<close>

definition write_listing :: "('frame, 'vo, 'pose, 'r) env \<Rightarrow> string \<Rightarrow> string list \<Rightarrow> 'pose fileop list" where
  "write_listing e name items =
     (if is_open e name then [WriteText name (concat (map (\<lambda>x. x @ [newline]) items))] else [])"

text \<open>
  Lines 116-148: what is printed and what is written once the loop is over.
\<close>

definition write_results ::
  "('frame, 'vo, 'pose, 'r) env \<Rightarrow> string \<Rightarrow> ('vo, 'pose, 'r) locals \<Rightarrow> 'r event list \<times> 'pose fileop list" where
  "write_results e output_fn s =
     (if output_fn = [] then ([], [])
      else
        ([Stdout (''writing results to prefix '' @ output_fn @ [newline])],
         WriteCameraPath (output_fn @ ''_path.txt'') (trajectory s) #
         write_listing e (output_fn @ ''_poses.txt'') (map (show_pose e) (trajectory s)) @
         write_listing e (output_fn @ ''_iterations.txt'') (map show_int (iterations s)) @
         write_listing e (output_fn @ ''_time.txt'') (map (show_float e) (time_ms s))))"

definition init_locals :: "('frame, 'vo, 'pose, 'r) env \<Rightarrow> 'vo \<Rightarrow> ('vo, 'pose, 'r) locals" where
  "init_locals e v =
     \<lparr>vo = v, trajectory = [], iterations = [], time_ms = [], total_time = d_zero e, console = []\<rparr>"

text \<open>
  \<^verbatim>\<open>main\<close>, from the parsed options on. The dataset and the parameters read from the
  configuration file are arguments (the environment \<open>e\<close>, \<open>params\<close>), and so is the engine
  \<open>v\<close> built from them. The result is the state of the locals when \<^verbatim>\<open>main\<close> returns 0,
  with everything printed, and the files written.
\<close>

definition main ::
  "('frame, 'vo, 'pose, 'r) env \<Rightarrow> ProgramOptions \<Rightarrow> AlgorithmParameters \<Rightarrow> 'vo
     \<Rightarrow> error + (('vo, 'pose, 'r) locals \<times> 'pose fileop list)" where
  "main e options params v =
     (let max_frames = opt_numframes options;
          do_show = \<not> opt_dontshow options;
          output_fn = opt_output options
      in if max_frames < 0 then Inl LengthError
         else
           (case main_loop e params max_frames do_show 0 (init_locals e v) of
              Inl err \<Rightarrow> Inl err
            | Inr s \<Rightarrow>
                let (printed, written) = write_results e output_fn s
                in Inr (s\<lparr>console := console s @ [Stdout [newline], Info (''done'' @ [newline])] @ printed\<rparr>,
                        written)))"

subsection \<open>Views of a run\<close>

text \<open>
  The results that \<^verbatim>\<open>addFrame\<close> returns during the loop, in the order of the calls:
  the loop asks for frame \<open>i\<close>, stops when there is none or when the user typed \<^verbatim>\<open>q\<close>,
  and hands the frame to the engine otherwise.
\<close>

function run_results ::
  "('frame, 'vo, 'pose, 'r) env \<Rightarrow> int \<Rightarrow> bool \<Rightarrow> int \<Rightarrow> 'vo \<Rightarrow> ('pose, 'r) Result list" where
  "run_results e max_frames do_show i v =
     (if i < max_frames then
        (case getFrame e i of
           None \<Rightarrow> []
         | Some frame \<Rightarrow>
             if do_show \<and> key_q = 0xff AND waitKey e i then []
             else (case addFrame e v frame of
                     Inl err \<Rightarrow> []
                   | Inr (result, v') \<Rightarrow> result # run_results e max_frames do_show (i + 1) v'))
      else [])"
  by pat_completeness auto
termination
  by (relation "measure (\<lambda>(e, max_frames, do_show, i, v). nat (max_frames - i))") auto


text \<open>
  The iteration count that the driver reads from a result (line 97).
\<close>

definition num_iters_of :: "AlgorithmParameters \<Rightarrow> ('pose, 'r) Result \<Rightarrow> int" where
  "num_iters_of params result = numIterations (optimizerStatistics result ! nat (maxTestLevel params))"

text \<open>
  The frames named by the warnings of a console, and the labels of its progress lines.
\<close>

fun warn_frames :: "'r event list \<Rightarrow> int list" where
  "warn_frames [] = []"
| "warn_frames (Warn msg i # es) = i # warn_frames es"
| "warn_frames (_ # es) = warn_frames es"

fun progress_labels :: "'r event list \<Rightarrow> int list" where
  "progress_labels [] = []"
| "progress_labels (Progress l tt rate n reason z # es) = l # progress_labels es"
| "progress_labels (_ # es) = progress_labels es"

text \<open>
  The lines of a text: the pieces that end with a newline (a last piece without one is
  no line).
\<close>

fun lines_from :: "string \<Rightarrow> string \<Rightarrow> string list" where
  "lines_from acc [] = []"
| "lines_from acc (c # cs) =
     (if c = newline then rev acc # lines_from [] cs else lines_from (c # acc) cs)"

definition lines_of :: "string \<Rightarrow> string list" where
  "lines_of txt = lines_from [] txt"

text \<open>
  The content of the file \<open>name\<close> among the files written, if it was written.
\<close>

fun file_content :: "'pose fileop list \<Rightarrow> string \<Rightarrow> string option" where
  "file_content [] name = None"
| "file_content (WriteText n txt # fs) name = (if n = name then Some txt else file_content fs name)"
| "file_content (WriteCameraPath n tr # fs) name = file_content fs name"

text \<open>
  The frames for which the console must hold a warning: the frames, counted from \<open>i\<close>,
  whose result has \<open>maxIterations\<close> iterations at level \<open>maxTestLevel\<close>.
\<close>

fun expected_warnings :: "AlgorithmParameters \<Rightarrow> int \<Rightarrow> ('pose, 'r) Result list \<Rightarrow> int list" where
  "expected_warnings params i [] = []"
| "expected_warnings params i (r # rs) =
     (if num_iters_of params r = maxIterations params then [i] else []) @
     expected_warnings params (i + 1) rs"

section \<open>The engine behind \<^verbatim>\<open>addFrame\<close>\<close>

text \<open>
  Modelled from the spec: \<^verbatim>\<open>VisualOdometryWithKeyFraming::addFrame\<close> is missing. What
  follows is the engine of sections 4.1 to 4.5 of the spec. The numerical kernels that
  the spec leaves open are the fields of the record \<open>kernels\<close>:
  \<^item> \<open>same_size frame\<close>: image and disparity of the frame have the configured dimensions;
  \<^item> \<open>full_level\<close> and \<open>half_level\<close>: the level of full resolution of a frame, and the
    level of half the linear resolution of a level (4.1);
  \<^item> \<open>irls_step template level p\<close>: steps 1 to 4 of one iteration of the optimizer at
    pose \<open>p\<close> (4.2). \<open>Singular cost\<close> is a system that cannot be solved;
    \<open>Stepped p' cost small_increment small_decrease\<close> is the updated pose, its cost, and
    the two threshold tests of step 5;
  \<^item> \<open>identity_pose\<close> and \<open>compose\<close>: the group of poses;
  \<^item> \<open>idle_cost\<close>: the cost recorded for a level that was not optimised;
  \<^item> \<open>too_far\<close>, \<open>too_rotated\<close>, \<open>low_quality\<close>, \<open>capped_finest\<close>: the tests of the keyframe
    selector against the thresholds of the parameters (4.3);
  \<^item> \<open>first_reason\<close>: the reason reported for the first frame, which is promoted to the
    first keyframe; the spec does not name it.
\<close>

datatype ('pose, 'r) step =
  Singular 'r
| Stepped 'pose 'r bool bool

record ('frame, 'lvl, 'pose, 'r) kernels =
  same_size :: "'frame \<Rightarrow> bool"
  full_level :: "'frame \<Rightarrow> 'lvl"
  half_level :: "'lvl \<Rightarrow> 'lvl"
  irls_step :: "'lvl \<Rightarrow> 'lvl \<Rightarrow> 'pose \<Rightarrow> ('pose, 'r) step"
  identity_pose :: "'pose"
  compose :: "'pose \<Rightarrow> 'pose \<Rightarrow> 'pose"
  idle_cost :: "'r"
  too_far :: "'pose \<Rightarrow> bool"
  too_rotated :: "'pose \<Rightarrow> bool"
  low_quality :: "'r OptimizerStatistics list \<Rightarrow> bool"
  capped_finest :: "'r OptimizerStatistics list \<Rightarrow> bool"
  first_reason :: ForceKeyframe

text \<open>
  Modelled from the spec (4.1): the pyramid builder produces \<open>levels\<close> entries, each half
  the resolution of the one before, and fails on mismatched dimensions or a level count
  that is not positive. Index 0 is the finest level.
\<close>

fun pyramid_from :: "('frame, 'lvl, 'pose, 'r) kernels \<Rightarrow> 'lvl \<Rightarrow> nat \<Rightarrow> 'lvl list" where
  "pyramid_from K l 0 = []"
| "pyramid_from K l (Suc n) = l # pyramid_from K (half_level K l) n"

definition build :: "('frame, 'lvl, 'pose, 'r) kernels \<Rightarrow> 'frame \<Rightarrow> int \<Rightarrow> error + 'lvl list" where
  "build K frame levels =
     (if \<not> same_size K frame \<or> levels \<le> 0 then Inl InvalidInputError
      else Inr (pyramid_from K (full_level K frame) (nat levels)))"

text \<open>
  Modelled from the spec (4.2, step 5; 7; 8.3): the iterations at one level. \<open>k\<close>
  iterations are done. The next one ends the level when the system is singular (no
  convergence, the pose stays the best so far), when the iteration cap is reached (no
  convergence), or when one of the two thresholds is met (convergence). An iteration
  that reaches the cap counts as the cap, also when it meets a threshold: the spec
  records convergence as the alternative to the cap, and has \<open>converged\<close> false whenever
  the count equals \<open>maxIterations\<close>.
\<close>

function iterate ::
  "('frame, 'lvl, 'pose, 'r) kernels \<Rightarrow> int \<Rightarrow> 'lvl \<Rightarrow> 'lvl \<Rightarrow> int \<Rightarrow> 'pose
     \<Rightarrow> 'pose \<times> 'r OptimizerStatistics" where
  "iterate K cap template level k p =
     (case irls_step K template level p of
        Singular cost \<Rightarrow> (p, \<lparr>numIterations = k + 1, finalCost = cost, converged = False\<rparr>)
      | Stepped p' cost small_increment small_decrease \<Rightarrow>
          if cap \<le> k + 1 then (p', \<lparr>numIterations = k + 1, finalCost = cost, converged = False\<rparr>)
          else if small_increment \<or> small_decrease
          then (p', \<lparr>numIterations = k + 1, finalCost = cost, converged = True\<rparr>)
          else iterate K cap template level (k + 1) p')"
  by pat_completeness auto
termination
  by (relation "measure (\<lambda>(K, cap, template, level, k, p). nat (cap - k))") auto

definition estimate ::
  "('frame, 'lvl, 'pose, 'r) kernels \<Rightarrow> AlgorithmParameters \<Rightarrow> 'lvl \<Rightarrow> 'lvl \<Rightarrow> 'pose
     \<Rightarrow> 'pose \<times> 'r OptimizerStatistics" where
  "estimate K params template level prior = iterate K (maxIterations params) template level 0 prior"

text \<open>
  Modelled from the spec (4.2): the optimizer runs once per level, coarse to fine, and
  seeds each finer level with the pose of the level before. The list pairs the levels of
  the keyframe with those of the current frame, finest first; the statistics come back
  indexed by level.
\<close>

fun optimize_levels ::
  "('frame, 'lvl, 'pose, 'r) kernels \<Rightarrow> AlgorithmParameters \<Rightarrow> ('lvl \<times> 'lvl) list \<Rightarrow> 'pose
     \<Rightarrow> 'pose \<times> 'r OptimizerStatistics list" where
  "optimize_levels K params [] prior = (prior, [])"
| "optimize_levels K params ((template, level) # coarser) prior =
     (let (p1, stats) = optimize_levels K params coarser prior;
          (p2, stat) = estimate K params template level p1
      in (p2, stat # stats))"

text \<open>
  Modelled from the spec (4.3): the keyframe selector tests the reasons in a fixed order
  and returns the first that applies, \<open>KeepOldKeyframe\<close> when none does.
\<close>

definition decide ::
  "('frame, 'lvl, 'pose, 'r) kernels \<Rightarrow> 'pose \<Rightarrow> 'r OptimizerStatistics list \<Rightarrow> KeyframingReason" where
  "decide K final_pose stats =
     (if too_far K final_pose then ForceKeyframe MaxTranslation
      else if too_rotated K final_pose then ForceKeyframe MaxRotation
      else if low_quality K stats then ForceKeyframe LowTrackingQuality
      else if capped_finest K stats then ForceKeyframe MaxIterationsAtFinestLevel
      else KeepOldKeyframe)"

text \<open>
  Modelled from the spec (4.4): the trajectory accumulator keeps the world pose of the
  latest keyframe. The world pose of a frame is that baseline composed with the relative
  pose; when a keyframe is forced, it becomes the new baseline.
\<close>

definition append_pose ::
  "('frame, 'lvl, 'pose, 'r) kernels \<Rightarrow> 'pose \<Rightarrow> 'pose \<Rightarrow> KeyframingReason \<Rightarrow> 'pose \<times> 'pose" where
  "append_pose K baseline relative reason =
     (let world = compose K baseline relative
      in (world, if reason = KeepOldKeyframe then baseline else world))"

text \<open>
  Modelled from the spec (3, 4.5): a keyframe is a frame with its pyramid; the controller
  is uninitialized, or tracks against the one active keyframe.
\<close>

record ('frame, 'lvl) Keyframe =
  kf_frame :: 'frame
  kf_pyramid :: "'lvl list"

datatype ('frame, 'lvl, 'pose) controller =
  Uninitialized
| Tracking "('frame, 'lvl) Keyframe" 'pose

fun active_keyframe :: "('frame, 'lvl, 'pose) controller \<Rightarrow> ('frame, 'lvl) Keyframe option" where
  "active_keyframe Uninitialized = None"
| "active_keyframe (Tracking kf baseline) = Some kf"

text \<open>
  Modelled from the spec (4.5): a malformed frame fails the call. The first frame seeds
  the keyframe: identity pose, no optimization, one idle statistics entry per level
  (no iteration, not converged), and a reason that forces a keyframe, since the frame is
  promoted. Any later frame goes through pyramid builder, optimizer (started from the
  identity at the coarsest level), keyframe selector and trajectory accumulator; a reason
  other than \<open>KeepOldKeyframe\<close> promotes the frame to keyframe.
\<close>

definition sm_addFrame ::
  "('frame, 'lvl, 'pose, 'r) kernels \<Rightarrow> AlgorithmParameters \<Rightarrow> ('frame, 'lvl, 'pose) controller
     \<Rightarrow> 'frame \<Rightarrow> error + (('pose, 'r) Result \<times> ('frame, 'lvl, 'pose) controller)" where
  "sm_addFrame K params c frame =
     (case build K frame (numPyramidLevels params) of
        Inl err \<Rightarrow> Inl err
      | Inr pyramid \<Rightarrow>
          (case c of
             Uninitialized \<Rightarrow>
               Inr (\<lparr>pose = identity_pose K,
                     optimizerStatistics =
                       replicate (nat (numPyramidLevels params))
                         \<lparr>numIterations = 0, finalCost = idle_cost K, converged = False\<rparr>,
                     keyFramingReason = ForceKeyframe (first_reason K)\<rparr>,
                    Tracking \<lparr>kf_frame = frame, kf_pyramid = pyramid\<rparr> (identity_pose K))
           | Tracking kf baseline \<Rightarrow>
               let (relative, stats) =
                     optimize_levels K params (zip (kf_pyramid kf) pyramid) (identity_pose K);
                   reason = decide K relative stats;
                   (world, baseline') = append_pose K baseline relative reason
               in Inr (\<lparr>pose = world, optimizerStatistics = stats, keyFramingReason = reason\<rparr>,
                       if reason = KeepOldKeyframe then Tracking kf baseline
                       else Tracking \<lparr>kf_frame = frame, kf_pyramid = pyramid\<rparr> baseline')))"

text \<open>
  The controller states that calls of the engine reach: the pyramid of the active
  keyframe has one level per configured level.
\<close>

fun controller_ok :: "AlgorithmParameters \<Rightarrow> ('frame, 'lvl, 'pose) controller \<Rightarrow> bool" where
  "controller_ok params Uninitialized = True"
| "controller_ok params (Tracking kf baseline) =
     (int (length (kf_pyramid kf)) = numPyramidLevels params)"

section \<open>Examples\<close>

text \<open>
  A small world to run the driver in: a dataset of three frames, nobody at the keyboard,
  an engine that counts its frames and reports two levels. Frame 1 reaches the cap of 50
  iterations at level 0; level 1 reaches it at every frame. Floating-point numbers are
  integers here.
\<close>

definition example_result :: "nat \<Rightarrow> (int, int) Result" where
  "example_result frame =
     \<lparr>pose = 10 * int frame,
      optimizerStatistics =
        [\<lparr>numIterations = (if frame = 1 then 50 else 7), finalCost = 0, converged = (frame \<noteq> 1)\<rparr>,
         \<lparr>numIterations = 50, finalCost = 0, converged = False\<rparr>],
      keyFramingReason = KeepOldKeyframe\<rparr>"

definition example_env :: "(nat, nat, int, int) env" where
  "example_env =
     \<lparr>getFrame = (\<lambda>i. if i < 3 then Some (nat i) else None),
      waitKey = (\<lambda>i. - 1),
      addFrame = (\<lambda>v frame. Inr (example_result frame, Suc v)),
      timer = (\<lambda>i. 20 + i),
      is_open = (\<lambda>name. True),
      d_zero = 0,
      d_thousand = 1000,
      d_add = (+),
      d_div = (div),
      d_of_int = id,
      f_of_d = id,
      show_pose = show_int,
      show_float = show_int\<rparr>"

definition example_params :: AlgorithmParameters where
  "example_params = \<lparr>numPyramidLevels = 2, maxIterations = 50, maxTestLevel = 0\<rparr>"

text \<open>
  The locals of the driver when its loop is over in this world.
\<close>

definition example_final :: "(nat, int, int) locals" where
  "example_final =
     \<lparr>vo = 3, trajectory = [0, 10, 20], iterations = [7, 50, 7], time_ms = [20, 21, 22],
      total_time = 0,
      console =
        [Progress (- 1) 20 0 7 KeepOldKeyframe 0,
         Stdout [newline], Warn (''max iterations reached at frame %d'' @ [newline]) 1,
         Progress 0 21 0 50 KeepOldKeyframe 0,
         Progress 1 22 0 7 KeepOldKeyframe 0,
         Info (''no more data'' @ [newline])]\<rparr>"

text \<open>
  A small engine: a level is a number, halved from level to level; a pose is an integer.
  An iteration converges at once on a level equal to its template, and never otherwise.
  The driver feeds it frame 0, which becomes the keyframe, and then frame 5.
\<close>

definition example_kernels :: "(nat, nat, int, int) kernels" where
  "example_kernels =
     \<lparr>same_size = (\<lambda>frame. True),
      full_level = (\<lambda>frame. frame),
      half_level = (\<lambda>l. l div 2),
      irls_step = (\<lambda>template level p.
        if template = level then Stepped p 0 True False else Stepped (p + 1) 1 False False),
      identity_pose = 0,
      compose = (+),
      idle_cost = 0,
      too_far = (\<lambda>p. 5 < p),
      too_rotated = (\<lambda>p. False),
      low_quality = (\<lambda>stats. False),
      capped_finest = (\<lambda>stats. False),
      first_reason = LowTrackingQuality\<rparr>"

definition engine_params :: AlgorithmParameters where
  "engine_params = \<lparr>numPyramidLevels = 2, maxIterations = 3, maxTestLevel = 0\<rparr>"

definition engine_env :: "(nat, (nat, nat, int) controller, int, int) env" where
  "engine_env =
     \<lparr>getFrame = (\<lambda>i. if i = 0 then Some 0 else if i = 1 then Some 5 else None),
      waitKey = (\<lambda>i. - 1),
      addFrame = sm_addFrame example_kernels engine_params,
      timer = (\<lambda>i. 20 + i),
      is_open = (\<lambda>name. True),
      d_zero = 0,
      d_thousand = 1000,
      d_add = (+),
      d_div = (div),
      d_of_int = id,
      f_of_d = id,
      show_pose = show_int,
      show_float = show_int\<rparr>"

definition example_keyframe :: "(nat, nat, int) controller" where
  "example_keyframe = Tracking \<lparr>kf_frame = 0, kf_pyramid = [0, 0]\<rparr> 0"

definition example_keyframe_moved :: "(nat, nat, int) controller" where
  "example_keyframe_moved = Tracking \<lparr>kf_frame = 5, kf_pyramid = [5, 2]\<rparr> 6"

text \<open>
  The results of this engine: for the first frame, for a frame equal to the keyframe, and
  for frame 5 seen from the keyframe of frame 0.
\<close>

definition example_first :: "(int, int) Result" where
  "example_first =
     \<lparr>pose = 0,
      optimizerStatistics =
        [\<lparr>numIterations = 0, finalCost = 0, converged = False\<rparr>,
         \<lparr>numIterations = 0, finalCost = 0, converged = False\<rparr>],
      keyFramingReason = ForceKeyframe LowTrackingQuality\<rparr>"

definition example_same :: "(int, int) Result" where
  "example_same =
     \<lparr>pose = 0,
      optimizerStatistics =
        [\<lparr>numIterations = 1, finalCost = 0, converged = True\<rparr>,
         \<lparr>numIterations = 1, finalCost = 0, converged = True\<rparr>],
      keyFramingReason = KeepOldKeyframe\<rparr>"

definition example_moved :: "(int, int) Result" where
  "example_moved =
     \<lparr>pose = 6,
      optimizerStatistics =
        [\<lparr>numIterations = 3, finalCost = 1, converged = False\<rparr>,
         \<lparr>numIterations = 3, finalCost = 1, converged = False\<rparr>],
      keyFramingReason = ForceKeyframe MaxTranslation\<rparr>"

definition engine_final :: "((nat, nat, int) controller, int, int) locals" where
  "engine_final =
     \<lparr>vo = example_keyframe_moved,
      trajectory = [0, 6], iterations = [0, 3], time_ms = [20, 21], total_time = 0,
      console =
        [Progress (- 1) 20 0 0 (ForceKeyframe LowTrackingQuality) 0,
         Stdout [newline], Warn (''max iterations reached at frame %d'' @ [newline]) 1,
         Progress 0 21 0 3 (ForceKeyframe MaxTranslation) 0,
         Info (''no more data'' @ [newline]),
         Stdout [newline], Info (''done'' @ [newline])]\<rparr>"

text \<open>
  Two variations of the first world, both run with the output prefix \<^verbatim>\<open>out\<close>: one where
  the stream of the iteration counts does not open, and one where a pose prints on two
  lines. Then the locals at the end of such a run, the texts of the listings, and the
  files written.
\<close>

definition closed_env :: "(nat, nat, int, int) env" where
  "closed_env = example_env\<lparr>is_open := \<lambda>name. name \<noteq> ''out_iterations.txt''\<rparr>"

definition two_line_env :: "(nat, nat, int, int) env" where
  "two_line_env = example_env\<lparr>show_pose := \<lambda>p. show_int p @ [newline] @ show_int p\<rparr>"

definition example_written :: "(nat, int, int) locals" where
  "example_written =
     example_final\<lparr>console := console example_final @
       [Stdout [newline], Info (''done'' @ [newline]),
        Stdout (''writing results to prefix out'' @ [newline])]\<rparr>"

definition example_pose_text :: string where
  "example_pose_text = ''0'' @ [newline] @ ''10'' @ [newline] @ ''20'' @ [newline]"

definition example_iteration_text :: string where
  "example_iteration_text = ''7'' @ [newline] @ ''50'' @ [newline] @ ''7'' @ [newline]"

definition example_time_text :: string where
  "example_time_text = ''20'' @ [newline] @ ''21'' @ [newline] @ ''22'' @ [newline]"

definition two_line_pose_text :: string where
  "two_line_pose_text =
     ''0'' @ [newline] @ ''0'' @ [newline] @ ''10'' @ [newline] @ ''10'' @ [newline] @
     ''20'' @ [newline] @ ''20'' @ [newline]"

definition closed_files :: "int fileop list" where
  "closed_files =
     [WriteCameraPath ''out_path.txt'' [0, 10, 20],
      WriteText ''out_poses.txt'' example_pose_text,
      WriteText ''out_time.txt'' example_time_text]"

definition two_line_files :: "int fileop list" where
  "two_line_files =
     [WriteCameraPath ''out_path.txt'' [0, 10, 20],
      WriteText ''out_poses.txt'' two_line_pose_text,
      WriteText ''out_iterations.txt'' example_iteration_text,
      WriteText ''out_time.txt'' example_time_text]"

section \<open>Properties of the driver\<close>

subsection \<open>Unfolding the loop\<close>

declare main_loop.simps [simp del] run_results.simps [simp del]

lemma main_loop_stop: "\<not> i < m \<Longrightarrow> main_loop e P m sh i s = Inr s"
  by (subst main_loop.simps) simp

lemma main_loop_no_data:
  "i < m \<Longrightarrow> getFrame e i = None \<Longrightarrow>
     main_loop e P m sh i s = Inr (s\<lparr>console := console s @ [Info (''no more data'' @ [newline])]\<rparr>)"
  by (subst main_loop.simps) simp

lemma main_loop_quit:
  "i < m \<Longrightarrow> getFrame e i = Some fr \<Longrightarrow> sh \<and> key_q = 0xff AND waitKey e i \<Longrightarrow>
     main_loop e P m sh i s = Inr s"
  by (subst main_loop.simps) simp

lemma main_loop_step:
  "i < m \<Longrightarrow> getFrame e i = Some fr \<Longrightarrow> \<not> (sh \<and> key_q = 0xff AND waitKey e i) \<Longrightarrow>
     main_loop e P m sh i s =
       (case body e P i s fr of Inl err \<Rightarrow> Inl err | Inr s' \<Rightarrow> main_loop e P m sh (i + 1) s')"
  by (subst main_loop.simps) auto

lemma run_results_stop: "\<not> i < m \<Longrightarrow> run_results e m sh i v = []"
  by (subst run_results.simps) simp

lemma run_results_no_data: "i < m \<Longrightarrow> getFrame e i = None \<Longrightarrow> run_results e m sh i v = []"
  by (subst run_results.simps) simp

lemma run_results_quit:
  "i < m \<Longrightarrow> getFrame e i = Some fr \<Longrightarrow> sh \<and> key_q = 0xff AND waitKey e i \<Longrightarrow>
     run_results e m sh i v = []"
  by (subst run_results.simps) simp

lemma run_results_step:
  "i < m \<Longrightarrow> getFrame e i = Some fr \<Longrightarrow> \<not> (sh \<and> key_q = 0xff AND waitKey e i) \<Longrightarrow>
     addFrame e v fr = Inr (r, v') \<Longrightarrow>
     run_results e m sh i v = r # run_results e m sh (i + 1) v'"
  by (subst run_results.simps) auto

lemma map_shift: "map (\<lambda>k. g (i + 1 + int k)) [0..<n] = map (\<lambda>k. g (i + int k)) [Suc 0..<Suc n]"
  by (simp add: map_Suc_upt[symmetric] add.commute add.left_commute del: upt_Suc)

lemma body_fields:
  "body e P i s fr = Inr s' \<Longrightarrow>
     \<exists>r v'. addFrame e (vo s) fr = Inr (r, v') \<and> vo s' = v' \<and>
       0 \<le> maxTestLevel P \<and> maxTestLevel P < int (length (optimizerStatistics r)) \<and>
       trajectory s' = trajectory s @ [pose r] \<and>
       iterations s' = iterations s @ [num_iters_of P r] \<and>
       time_ms s' = time_ms s @ [f_of_d e (timer e i)] \<and>
       console s' = console s @ warn_events P i (num_iters_of P r) @
          [Progress (i - 1) (timer e i)
             (d_div e (d_of_int e (i - 1)) (d_add e (total_time s) (d_div e (timer e i) (d_thousand e))))
             (num_iters_of P r) (keyFramingReason r) 0] \<and>
       total_time s' = d_add e (total_time s) (d_div e (timer e i) (d_thousand e))"
  by (auto simp: body_def num_iters_of_def Let_def split: sum.splits prod.splits if_splits)

lemma main_loop_run:
  "main_loop e P m sh i s = Inr s' \<Longrightarrow>
     trajectory s' = trajectory s @ map pose (run_results e m sh i (vo s)) \<and>
     iterations s' = iterations s @ map (num_iters_of P) (run_results e m sh i (vo s)) \<and>
     time_ms s' = time_ms s @ map (\<lambda>k. f_of_d e (timer e (i + int k))) [0..<length (run_results e m sh i (vo s))]"
proof (induction e P m sh i s rule: main_loop.induct)
  case (1 e P m sh i s)
  show ?case
  proof (cases "i < m")
    case False
    with "1.prems" show ?thesis by (simp add: main_loop_stop run_results_stop)
  next
    case True
    show ?thesis
    proof (cases "getFrame e i")
      case None
      with True "1.prems" show ?thesis by (auto simp: main_loop_no_data run_results_no_data)
    next
      case (Some fr)
      show ?thesis
      proof (cases "sh \<and> key_q = 0xff AND waitKey e i")
        case True
        with \<open>i < m\<close> Some "1.prems" show ?thesis
          by (simp add: main_loop_quit run_results_quit)
      next
        case False
        with \<open>i < m\<close> Some "1.prems" obtain s1 where
          b: "body e P i s fr = Inr s1" and l: "main_loop e P m sh (i + 1) s1 = Inr s'"
          by (auto simp: main_loop_step split: sum.splits)
        from body_fields[OF b] obtain r v' where
          a: "addFrame e (vo s) fr = Inr (r, v')" and v: "vo s1 = v'" and
          t: "trajectory s1 = trajectory s @ [pose r]" and
          it: "iterations s1 = iterations s @ [num_iters_of P r]" and
          tm: "time_ms s1 = time_ms s @ [f_of_d e (timer e i)]"
          by blast
        have rr: "run_results e m sh i (vo s) = r # run_results e m sh (i + 1) (vo s1)"
          using \<open>i < m\<close> Some False a v by (simp add: run_results_step)
        from "1.IH"[OF \<open>i < m\<close> Some False b l] t it tm rr
          map_shift[where g="\<lambda>j. f_of_d e (timer e j)" and i=i]
        show ?thesis
          by (simp add: upt_conv_Cons del: upt_Suc)
      qed
    qed
  qed
qed

lemma run_results_length: "int (length (run_results e m sh i v)) \<le> max 0 (m - i)"
proof (induction e m sh i v rule: run_results.induct)
  case (1 e m sh i v)
  show ?case
  proof (cases "i < m")
    case False
    then show ?thesis by (simp add: run_results_stop)
  next
    case True
    show ?thesis
    proof (cases "getFrame e i")
      case None
      with True show ?thesis by (simp add: run_results_no_data)
    next
      case (Some fr)
      show ?thesis
      proof (cases "sh \<and> key_q = 0xff AND waitKey e i")
        case True
        with \<open>i < m\<close> Some show ?thesis by (simp add: run_results_quit)
      next
        case False
        show ?thesis
        proof (cases "addFrame e v fr")
          case (Inl err)
          with \<open>i < m\<close> Some False show ?thesis by (subst run_results.simps) simp
        next
          case (Inr rv)
          obtain r v' where rv: "rv = (r, v')" by (cases rv)
          from "1.IH"[OF \<open>i < m\<close> Some False Inr[unfolded rv] refl]
          have "int (length (run_results e m sh (i + 1) v')) \<le> max 0 (m - (i + 1))" .
          with \<open>i < m\<close> Some False Inr rv show ?thesis
            by (simp add: run_results_step)
        qed
      qed
    qed
  qed
qed

lemma warn_frames_append: "warn_frames (xs @ ys) = warn_frames xs @ warn_frames ys"
  by (induction xs rule: warn_frames.induct) simp_all

lemma progress_labels_append: "progress_labels (xs @ ys) = progress_labels xs @ progress_labels ys"
  by (induction xs rule: progress_labels.induct) simp_all

lemma warn_frames_warn_events:
  "warn_frames (warn_events P i n) = (if n = maxIterations P then [i] else [])"
  by (simp add: warn_events_def)

lemma progress_labels_warn_events: "progress_labels (warn_events P i n) = []"
  by (simp add: warn_events_def)

lemma main_loop_console:
  "main_loop e P m sh i s = Inr s' \<Longrightarrow>
     warn_frames (console s') =
       warn_frames (console s) @ expected_warnings P i (run_results e m sh i (vo s)) \<and>
     progress_labels (console s') =
       progress_labels (console s) @ map (\<lambda>k. i + int k - 1) [0..<length (run_results e m sh i (vo s))]"
proof (induction e P m sh i s rule: main_loop.induct)
  case (1 e P m sh i s)
  show ?case
  proof (cases "i < m")
    case False
    with "1.prems" show ?thesis by (simp add: main_loop_stop run_results_stop)
  next
    case True
    show ?thesis
    proof (cases "getFrame e i")
      case None
      with True "1.prems" show ?thesis
        by (auto simp: main_loop_no_data run_results_no_data warn_frames_append progress_labels_append)
    next
      case (Some fr)
      show ?thesis
      proof (cases "sh \<and> key_q = 0xff AND waitKey e i")
        case True
        with \<open>i < m\<close> Some "1.prems" show ?thesis
          by (simp add: main_loop_quit run_results_quit)
      next
        case False
        with \<open>i < m\<close> Some "1.prems" obtain s1 where
          b: "body e P i s fr = Inr s1" and l: "main_loop e P m sh (i + 1) s1 = Inr s'"
          by (auto simp: main_loop_step split: sum.splits)
        from body_fields[OF b] obtain r v' where
          a: "addFrame e (vo s) fr = Inr (r, v')" and v: "vo s1 = v'" and
          c: "console s1 = console s @ warn_events P i (num_iters_of P r) @
          [Progress (i - 1) (timer e i)
             (d_div e (d_of_int e (i - 1)) (d_add e (total_time s) (d_div e (timer e i) (d_thousand e))))
             (num_iters_of P r) (keyFramingReason r) 0]"
          by blast
        have rr: "run_results e m sh i (vo s) = r # run_results e m sh (i + 1) (vo s1)"
          using \<open>i < m\<close> Some False a v by (simp add: run_results_step)
        from "1.IH"[OF \<open>i < m\<close> Some False b l] c rr
          map_shift[where g="\<lambda>j. j - 1" and i=i]
        show ?thesis
          by (simp add: upt_conv_Cons warn_frames_append progress_labels_append
              warn_frames_warn_events progress_labels_warn_events del: upt_Suc)
      qed
    qed
  qed
qed

lemma expected_warnings_set:
  "set (expected_warnings P i rs) =
     {j. i \<le> j \<and> j < i + int (length rs) \<and> num_iters_of P (rs ! nat (j - i)) = maxIterations P}"
proof (induction rs arbitrary: i)
  case Nil
  show ?case by auto
next
  case (Cons r rs)
  have shift: "\<And>j. i + 1 \<le> j \<Longrightarrow> (r # rs) ! nat (j - i) = rs ! nat (j - (i + 1))"
  proof -
    fix j :: int
    assume "i + 1 \<le> j"
    then have "nat (j - i) = Suc (nat (j - (i + 1)))" by simp
    then show "(r # rs) ! nat (j - i) = rs ! nat (j - (i + 1))" by simp
  qed
  show ?case
  proof (rule set_eqI)
    fix j
    show "j \<in> set (expected_warnings P i (r # rs)) \<longleftrightarrow>
        j \<in> {j. i \<le> j \<and> j < i + int (length (r # rs)) \<and>
             num_iters_of P ((r # rs) ! nat (j - i)) = maxIterations P}"
    proof (cases "j = i")
      case True
      then show ?thesis by (auto simp: Cons.IH)
    next
      case False
      then show ?thesis using shift[of j] by (auto simp: Cons.IH)
    qed
  qed
qed

subsection \<open>The whole program\<close>

lemma main_run:
  "main e opts P v = Inr (s, files) \<Longrightarrow>
     \<exists>s0. 0 \<le> opt_numframes opts \<and>
       main_loop e P (opt_numframes opts) (\<not> opt_dontshow opts) 0 (init_locals e v) = Inr s0 \<and>
       s = s0\<lparr>console := console s0 @ [Stdout [newline], Info (''done'' @ [newline])] @
              fst (write_results e (opt_output opts) s0)\<rparr> \<and>
       files = snd (write_results e (opt_output opts) s0)"
  by (auto simp: main_def Let_def split: if_splits sum.splits prod.splits)

lemma init_locals_simps:
  "vo (init_locals e v) = v" "trajectory (init_locals e v) = []"
  "iterations (init_locals e v) = []" "time_ms (init_locals e v) = []"
  "total_time (init_locals e v) = d_zero e" "console (init_locals e v) = []"
  by (simp_all add: init_locals_def)

subsection \<open>The example run\<close>

lemma example_loop:
  "main_loop example_env example_params 1000 True 0 (init_locals example_env 0) = Inr example_final"
  by (simp add: main_loop.simps body_def example_env_def example_params_def example_result_def
      init_locals_def warn_events_def key_q_def example_final_def)

lemma example_body0:
  "body example_env example_params 0 (init_locals example_env 0) 0 =
     Inr \<lparr>vo = Suc 0, trajectory = [0], iterations = [7], time_ms = [20], total_time = 0,
          console = [Progress (- 1) 20 0 7 KeepOldKeyframe 0]\<rparr>"
  by (simp add: body_def example_env_def example_params_def example_result_def init_locals_def
      warn_events_def)

lemma example_main:
  "main example_env default_options example_params 0 =
     Inr (example_final\<lparr>console := console example_final @
            [Stdout [newline], Info (''done'' @ [newline])]\<rparr>, [])"
  by (simp add: main_def default_options_def example_loop write_results_def)

lemma example_results:
  "run_results example_env 1000 True 0 0 = [example_result 0, example_result 1, example_result 2]"
  by (simp add: run_results.simps example_env_def key_q_def)

subsection \<open>Listings and views\<close>

declare show_nat.simps [simp del]

lemma digit_char_not_newline: "d < 10 \<Longrightarrow> digit_char d \<noteq> newline"
proof -
  assume "d < 10"
  then have "d \<in> {0, 1, 2, 3, 4, 5, 6, 7, 8, 9}" by auto
  then show ?thesis by (auto simp: digit_char_def newline_def)
qed

lemma show_nat_no_newline: "newline \<notin> set (show_nat n)"
proof (induction n rule: show_nat.induct)
  case (1 n)
  show ?case
  proof (cases "n < 10")
    case True
    then show ?thesis
      using digit_char_not_newline[of n] by (subst show_nat.simps) auto
  next
    case False
    have "n mod 10 < 10" by simp
    from digit_char_not_newline[OF this] "1.IH"[OF False] False show ?thesis
      by (subst show_nat.simps) auto
  qed
qed

lemma show_int_no_newline: "newline \<notin> set (show_int k)"
  using show_nat_no_newline by (auto simp: show_int_def newline_def)

lemma lines_from_item:
  "newline \<notin> set x \<Longrightarrow> lines_from acc (x @ newline # rest) = (rev acc @ x) # lines_from [] rest"
  by (induction x arbitrary: acc) auto

lemma lines_of_listing:
  "\<forall>x\<in>set items. newline \<notin> set x \<Longrightarrow>
     lines_of (concat (map (\<lambda>x. x @ [newline]) items)) = items"
  unfolding lines_of_def
  by (induction items) (simp_all add: lines_from_item)

lemma progress_labels_write_results: "progress_labels (fst (write_results e out s)) = []"
  by (simp add: write_results_def)

lemma warn_frames_write_results: "warn_frames (fst (write_results e out s)) = []"
  by (simp add: write_results_def)

lemma write_results_empty: "write_results e [] s = ([], [])"
  by (simp add: write_results_def)

lemma main_fields:
  assumes "main e opts P v = Inr (s, files)"
  shows "trajectory s = map pose (run_results e (opt_numframes opts) (\<not> opt_dontshow opts) 0 v)"
    and "iterations s = map (num_iters_of P) (run_results e (opt_numframes opts) (\<not> opt_dontshow opts) 0 v)"
    and "time_ms s = map (\<lambda>k. f_of_d e (timer e (int k)))
           [0..<length (run_results e (opt_numframes opts) (\<not> opt_dontshow opts) 0 v)]"
    and "warn_frames (console s) =
           expected_warnings P 0 (run_results e (opt_numframes opts) (\<not> opt_dontshow opts) 0 v)"
    and "progress_labels (console s) = map (\<lambda>k. int k - 1)
           [0..<length (run_results e (opt_numframes opts) (\<not> opt_dontshow opts) 0 v)]"
    and "int (length (run_results e (opt_numframes opts) (\<not> opt_dontshow opts) 0 v)) \<le> opt_numframes opts"
    and "files = snd (write_results e (opt_output opts) s)"
proof -
  from main_run[OF assms] obtain s0 where
    n: "0 \<le> opt_numframes opts" and
    l: "main_loop e P (opt_numframes opts) (\<not> opt_dontshow opts) 0 (init_locals e v) = Inr s0" and
    s: "s = s0\<lparr>console := console s0 @ [Stdout [newline], Info (''done'' @ [newline])] @
              fst (write_results e (opt_output opts) s0)\<rparr>" and
    f: "files = snd (write_results e (opt_output opts) s0)"
    by blast
  from main_loop_run[OF l] s
  show "trajectory s = map pose (run_results e (opt_numframes opts) (\<not> opt_dontshow opts) 0 v)"
    and "iterations s = map (num_iters_of P) (run_results e (opt_numframes opts) (\<not> opt_dontshow opts) 0 v)"
    and "time_ms s = map (\<lambda>k. f_of_d e (timer e (int k)))
           [0..<length (run_results e (opt_numframes opts) (\<not> opt_dontshow opts) 0 v)]"
    by (simp_all add: init_locals_simps)
  from main_loop_console[OF l] s
  show "warn_frames (console s) =
           expected_warnings P 0 (run_results e (opt_numframes opts) (\<not> opt_dontshow opts) 0 v)"
    and "progress_labels (console s) = map (\<lambda>k. int k - 1)
           [0..<length (run_results e (opt_numframes opts) (\<not> opt_dontshow opts) 0 v)]"
    by (simp_all add: init_locals_simps warn_frames_append progress_labels_append
        progress_labels_write_results warn_frames_write_results)
  from run_results_length[of e "opt_numframes opts" "\<not> opt_dontshow opts" 0 v] n
  show "int (length (run_results e (opt_numframes opts) (\<not> opt_dontshow opts) 0 v)) \<le> opt_numframes opts"
    by simp
  from f s show "files = snd (write_results e (opt_output opts) s)"
    by (simp add: write_results_def)
qed

subsection \<open>Files\<close>

lemma file_content_listing:
  "file_content (write_listing e name items @ fs) n =
     (if is_open e name \<and> name = n then Some (concat (map (\<lambda>x. x @ [newline]) items))
      else file_content fs n)"
  by (auto simp: write_listing_def)

lemma file_content_listing_last:
  "file_content (write_listing e name items) n =
     (if is_open e name \<and> name = n then Some (concat (map (\<lambda>x. x @ [newline]) items))
      else None)"
  by (auto simp: write_listing_def)

lemma suffix_neq:
  "out @ ''_poses.txt'' \<noteq> out @ ''_iterations.txt''"
  "out @ ''_poses.txt'' \<noteq> out @ ''_time.txt''"
  "out @ ''_iterations.txt'' \<noteq> out @ ''_time.txt''"
  by simp_all

section \<open>Properties of the engine\<close>

declare iterate.simps [simp del]

lemma pyramid_from_length: "length (pyramid_from K l n) = n"
  by (induction n arbitrary: l) simp_all

lemma build_length:
  "build K frame levels = Inr pyramid \<Longrightarrow> int (length pyramid) = levels \<and> 0 < levels"
  by (auto simp: build_def pyramid_from_length split: if_splits)

lemma iterate_converged:
  "converged (snd (iterate K cap template level k p)) \<Longrightarrow>
     numIterations (snd (iterate K cap template level k p)) < cap"
proof (induction K cap template level k p rule: iterate.induct)
  case (1 K cap template level k p)
  show ?case
  proof (cases "irls_step K template level p")
    case (Singular cost)
    with "1.prems" show ?thesis by (subst (asm) iterate.simps) simp
  next
    case (Stepped p' cost a b)
    show ?thesis
    proof (cases "cap \<le> k + 1")
      case True
      with Stepped "1.prems" show ?thesis by (subst (asm) iterate.simps) simp
    next
      case False
      note nocap = this
      show ?thesis
      proof (cases "a \<or> b")
        case True
        with Stepped nocap show ?thesis by (subst iterate.simps) auto
      next
        case False
        with Stepped nocap have
          eq: "iterate K cap template level k p = iterate K cap template level (k + 1) p'"
          by (subst iterate.simps) simp
        from "1.IH"[OF Stepped nocap False] "1.prems" show ?thesis by (simp add: eq)
      qed
    qed
  qed
qed

lemma estimate_converged:
  "estimate K P template level prior = (p, st) \<Longrightarrow> converged st \<Longrightarrow> numIterations st < maxIterations P"
  using iterate_converged[of K "maxIterations P" template level 0 prior]
  by (simp add: estimate_def)

lemma optimize_levels_stats:
  "optimize_levels K P ls prior = (p, stats) \<Longrightarrow>
     length stats = length ls \<and>
     (\<forall>st\<in>set stats. converged st \<longrightarrow> numIterations st < maxIterations P)"
proof (induction ls arbitrary: p stats)
  case Nil
  then show ?case by simp
next
  case (Cons a ls)
  obtain template level where a: "a = (template, level)" by (cases a)
  obtain p1 sts where o: "optimize_levels K P ls prior = (p1, sts)" by (cases "optimize_levels K P ls prior")
  obtain p2 st where e: "estimate K P template level p1 = (p2, st)"
    by (cases "estimate K P template level p1")
  from Cons.prems a o e have s: "stats = st # sts" by simp
  from Cons.IH[OF o] estimate_converged[OF e] s show ?case by auto
qed

lemma sm_addFrame_result:
  assumes "sm_addFrame K P c frame = Inr (r, c')" and "controller_ok P c"
  shows "int (length (optimizerStatistics r)) = numPyramidLevels P"
    and "controller_ok P c'"
proof -
  from assms(1) obtain pyramid where b: "build K frame (numPyramidLevels P) = Inr pyramid"
    by (auto simp: sm_addFrame_def split: sum.splits)
  note bl = build_length[OF b]
  show "int (length (optimizerStatistics r)) = numPyramidLevels P"
  proof (cases c)
    case Uninitialized
    with assms(1) b bl show ?thesis by (auto simp: sm_addFrame_def)
  next
    case (Tracking kf baseline)
    obtain rel stats where o:
      "optimize_levels K P (zip (kf_pyramid kf) pyramid) (identity_pose K) = (rel, stats)"
      by (cases "optimize_levels K P (zip (kf_pyramid kf) pyramid) (identity_pose K)")
    from assms(1) Tracking b o have "optimizerStatistics r = stats"
      by (auto simp: sm_addFrame_def Let_def split: prod.splits)
    with optimize_levels_stats[OF o] bl assms(2) Tracking show ?thesis by simp
  qed
  show "controller_ok P c'"
  proof (cases c)
    case Uninitialized
    with assms(1) b bl show ?thesis by (auto simp: sm_addFrame_def)
  next
    case (Tracking kf baseline)
    with assms b bl show ?thesis
      by (auto simp: sm_addFrame_def Let_def split: prod.splits if_splits)
  qed
qed

lemma sm_addFrame_cap:
  assumes "sm_addFrame K P c frame = Inr (r, c')"
    and "st \<in> set (optimizerStatistics r)" and "numIterations st = maxIterations P"
  shows "\<not> converged st"
proof (cases c)
  case Uninitialized
  with assms show ?thesis by (auto simp: sm_addFrame_def split: sum.splits)
next
  case (Tracking kf baseline)
  from assms(1) obtain pyramid where b: "build K frame (numPyramidLevels P) = Inr pyramid"
    by (auto simp: sm_addFrame_def split: sum.splits)
  obtain rel stats where o:
    "optimize_levels K P (zip (kf_pyramid kf) pyramid) (identity_pose K) = (rel, stats)"
    by (cases "optimize_levels K P (zip (kf_pyramid kf) pyramid) (identity_pose K)")
  from assms(1) Tracking b o have "optimizerStatistics r = stats"
    by (auto simp: sm_addFrame_def Let_def split: prod.splits)
  with optimize_levels_stats[OF o] assms(2,3) show ?thesis by auto
qed

lemma sm_addFrame_keyframe:
  assumes "sm_addFrame K P c frame = Inr (r, c')"
  shows "keyFramingReason r = KeepOldKeyframe \<Longrightarrow> c' = c"
    and "keyFramingReason r \<noteq> KeepOldKeyframe \<Longrightarrow>
           \<exists>pyramid. build K frame (numPyramidLevels P) = Inr pyramid \<and>
             active_keyframe c' = Some \<lparr>kf_frame = frame, kf_pyramid = pyramid\<rparr>"
  using assms
  by (cases c; auto simp: sm_addFrame_def Let_def split: sum.splits prod.splits if_splits)+

subsection \<open>The driver on an engine with an invariant\<close>

lemma body_error:
  "body e P i s fr = Inl err \<Longrightarrow>
     addFrame e (vo s) fr = Inl err \<or>
     (\<exists>r v'. addFrame e (vo s) fr = Inr (r, v') \<and> err = StatsIndexOutOfRange i \<and>
        (maxTestLevel P < 0 \<or> int (length (optimizerStatistics r)) \<le> maxTestLevel P))"
  by (auto simp: body_def Let_def split: sum.splits prod.splits if_splits)

lemma main_loop_in_bounds:
  assumes step: "\<And>v fr r v'. Inv v \<Longrightarrow> addFrame e v fr = Inr (r, v') \<Longrightarrow>
      Inv v' \<and> maxTestLevel P < int (length (optimizerStatistics r))"
    and engine: "\<And>v fr. addFrame e v fr \<noteq> Inl (StatsIndexOutOfRange j)"
    and low: "0 \<le> maxTestLevel P"
    and inv: "Inv (vo s)"
  shows "main_loop e P m sh i s \<noteq> Inl (StatsIndexOutOfRange j)"
  using step engine low inv
proof (induction e P m sh i s rule: main_loop.induct)
  case (1 e P m sh i s)
  show ?case
  proof (cases "i < m")
    case False
    then show ?thesis by (simp add: main_loop_stop)
  next
    case True
    show ?thesis
    proof (cases "getFrame e i")
      case None
      with True show ?thesis by (simp add: main_loop_no_data)
    next
      case (Some fr)
      show ?thesis
      proof (cases "sh \<and> key_q = 0xff AND waitKey e i")
        case True
        with \<open>i < m\<close> Some show ?thesis by (simp add: main_loop_quit)
      next
        case False
        show ?thesis
        proof (cases "body e P i s fr")
          case (Inl err)
          from body_error[OF Inl] "1.prems" have "err \<noteq> StatsIndexOutOfRange j"
            by (metis not_less)
          with \<open>i < m\<close> Some False Inl show ?thesis by (simp add: main_loop_step)
        next
          case (Inr s1)
          from body_fields[OF Inr] "1.prems"(1,4) have "Inv (vo s1)" by blast
          from "1.IH"[OF \<open>i < m\<close> Some False Inr "1.prems"(1,2,3) this]
          show ?thesis using \<open>i < m\<close> Some False Inr by (simp add: main_loop_step)
        qed
      qed
    qed
  qed
qed

lemma run_results_all:
  assumes step: "\<And>v fr r v'. Inv v \<Longrightarrow> addFrame e v fr = Inr (r, v') \<Longrightarrow> Inv v' \<and> Q r"
    and inv: "Inv v"
  shows "\<forall>r\<in>set (run_results e m sh i v). Q r"
  using step inv
proof (induction e m sh i v rule: run_results.induct)
  case (1 e m sh i v)
  show ?case
  proof (cases "i < m")
    case False
    then show ?thesis by (simp add: run_results_stop)
  next
    case True
    show ?thesis
    proof (cases "getFrame e i")
      case None
      with True show ?thesis by (simp add: run_results_no_data)
    next
      case (Some fr)
      show ?thesis
      proof (cases "sh \<and> key_q = 0xff AND waitKey e i")
        case True
        with \<open>i < m\<close> Some show ?thesis by (simp add: run_results_quit)
      next
        case False
        show ?thesis
        proof (cases "addFrame e v fr")
          case (Inl err)
          with \<open>i < m\<close> Some False show ?thesis by (subst run_results.simps) simp
        next
          case (Inr rv)
          obtain r v' where rv: "rv = (r, v')" by (cases rv)
          from "1.prems"(1)[OF "1.prems"(2) Inr[unfolded rv]] have q: "Inv v'" "Q r" by simp_all
          from "1.IH"[OF \<open>i < m\<close> Some False Inr[unfolded rv] refl "1.prems"(1) q(1)] q(2)
          show ?thesis using \<open>i < m\<close> Some False Inr rv by (simp add: run_results_step)
        qed
      qed
    qed
  qed
qed

lemma sm_addFrame_error: "sm_addFrame K P c frame = Inl err \<Longrightarrow> err = InvalidInputError"
  by (cases c) (auto simp: sm_addFrame_def build_def Let_def split: sum.splits prod.splits if_splits)

subsection \<open>The example engine\<close>

lemma pyramid_from_2: "pyramid_from K l 2 = [l, half_level K l]"
  by (simp add: numeral_2_eq_2)

lemma replicate_2: "replicate 2 x = [x, x]"
  by (simp add: numeral_2_eq_2)

lemma engine_params_simps:
  "numPyramidLevels engine_params = 2" "maxIterations engine_params = 3"
  "maxTestLevel engine_params = 0"
  by (simp_all add: engine_params_def)

lemma example_engine_first:
  "sm_addFrame example_kernels engine_params Uninitialized 0 = Inr (example_first, example_keyframe)"
  by (simp add: sm_addFrame_def build_def example_kernels_def engine_params_simps
      example_keyframe_def pyramid_from_2 replicate_2 example_first_def)

lemma example_engine_same:
  "sm_addFrame example_kernels engine_params example_keyframe 0 = Inr (example_same, example_keyframe)"
  by (simp add: sm_addFrame_def build_def example_kernels_def engine_params_simps
      example_keyframe_def pyramid_from_2 estimate_def iterate.simps decide_def append_pose_def
      example_same_def)

lemma example_engine_moved:
  "sm_addFrame example_kernels engine_params example_keyframe 5 =
     Inr (example_moved, example_keyframe_moved)"
  by (simp add: sm_addFrame_def build_def example_kernels_def engine_params_simps
      example_keyframe_def pyramid_from_2 estimate_def iterate.simps decide_def append_pose_def
      example_moved_def example_keyframe_moved_def)

lemma example_engine_results:
  "run_results engine_env 1000 True 0 Uninitialized = [example_first, example_moved]"
  by (simp add: run_results.simps engine_env_def key_q_def example_engine_first example_engine_moved)

lemma example_engine_main:
  "main engine_env default_options engine_params Uninitialized = Inr (engine_final, [])"
  by (simp add: main_def default_options_def main_loop.simps body_def engine_env_def key_q_def
      example_engine_first example_engine_moved init_locals_def engine_params_simps warn_events_def
      write_results_def example_first_def example_moved_def engine_final_def
      example_keyframe_moved_def)

subsection \<open>Runs that return\<close>









lemma lines_of_entries:
  "\<forall>x\<in>set xs. newline \<notin> set (g x) \<Longrightarrow>
     lines_of (concat (map (\<lambda>x. g x @ [newline]) xs)) = map g xs"
  using lines_of_listing[of "map g xs"] by (simp add: comp_def)

lemma example_show_int:
  "show_int 0 = ''0''" "show_int 10 = ''10''" "show_int 20 = ''20''"
  "show_int 7 = ''7''" "show_int 50 = ''50''" "show_int 21 = ''21''" "show_int 22 = ''22''"
  by (simp_all add: show_int_def show_nat.simps digit_char_def)

lemma example_loop_closed:
  "main_loop closed_env example_params 1000 True 0 (init_locals closed_env 0) = Inr example_final"
  by (simp add: main_loop.simps body_def closed_env_def example_env_def example_params_def
      example_result_def init_locals_def warn_events_def key_q_def example_final_def)

lemma example_loop_two_line:
  "main_loop two_line_env example_params 1000 True 0 (init_locals two_line_env 0) = Inr example_final"
  by (simp add: main_loop.simps body_def two_line_env_def example_env_def example_params_def
      example_result_def init_locals_def warn_events_def key_q_def example_final_def)

lemma example_main_closed:
  "main closed_env (default_options\<lparr>opt_output := ''out''\<rparr>) example_params 0 =
     Inr (example_written, closed_files)"
proof -
  have w: "write_results closed_env ''out'' example_final =
      ([Stdout (''writing results to prefix out'' @ [newline])], closed_files)"
    by (simp add: write_results_def write_listing_def closed_env_def example_env_def
        example_final_def closed_files_def example_pose_text_def example_time_text_def
        example_show_int)
  show ?thesis
    by (simp add: main_def default_options_def example_loop_closed w example_written_def)
qed

lemma example_main_two_line:
  "main two_line_env (default_options\<lparr>opt_output := ''out''\<rparr>) example_params 0 =
     Inr (example_written, two_line_files)"
proof -
  have w: "write_results two_line_env ''out'' example_final =
      ([Stdout (''writing results to prefix out'' @ [newline])], two_line_files)"
    by (simp add: write_results_def write_listing_def two_line_env_def example_env_def
        example_final_def two_line_files_def two_line_pose_text_def example_iteration_text_def
        example_time_text_def example_show_int)
  show ?thesis
    by (simp add: main_def default_options_def example_loop_two_line w example_written_def)
qed

lemma example_lines:
  "lines_of example_pose_text = [''0'', ''10'', ''20'']"
  "lines_of example_iteration_text = [''7'', ''50'', ''7'']"
  "lines_of example_time_text = [''20'', ''21'', ''22'']"
  "lines_of two_line_pose_text = [''0'', ''0'', ''10'', ''10'', ''20'', ''20'']"
  by (simp_all add: lines_of_def example_pose_text_def example_iteration_text_def
      example_time_text_def two_line_pose_text_def newline_def)

lemma example_results_closed:
  "run_results closed_env 1000 True 0 0 = [example_result 0, example_result 1, example_result 2]"
  by (simp add: run_results.simps closed_env_def example_env_def key_q_def)



section \<open>Properties stated by the specification\<close>

text \<open>
  C1. After a run of \<^verbatim>\<open>main\<close>, the frames named by the warnings on the console are
  exactly the processed frames whose iteration count at level \<open>maxTestLevel\<close> equals
  \<open>maxIterations\<close>: every such frame has its warning, and no other frame has one. And in
  every result of the engine, a level whose iteration count equals \<open>maxIterations\<close> has
  \<open>converged\<close> false.
\<close>

theorem warning_iff_cap_at_maxTestLevel:
  "(main e opts P v = Inr (s, files) \<longrightarrow>
      set (warn_frames (console s)) =
        {int k |k. k < length (run_results e (opt_numframes opts) (\<not> opt_dontshow opts) 0 v) \<and>
           num_iters_of P (run_results e (opt_numframes opts) (\<not> opt_dontshow opts) 0 v ! k) =
             maxIterations P}) \<and>
   (sm_addFrame K P c frame = Inr (r, c') \<and> l < length (optimizerStatistics r) \<and>
    numIterations (optimizerStatistics r ! l) = maxIterations P \<longrightarrow>
      \<not> converged (optimizerStatistics r ! l))"
proof (intro conjI impI)
  assume a: "main e opts P v = Inr (s, files)"
  let ?rs = "run_results e (opt_numframes opts) (\<not> opt_dontshow opts) 0 v"
  have "set (warn_frames (console s)) =
      {j. 0 \<le> j \<and> j < 0 + int (length ?rs) \<and> num_iters_of P (?rs ! nat (j - 0)) = maxIterations P}"
    unfolding main_fields(4)[OF a] by (rule expected_warnings_set)
  also have "\<dots> = {int k |k. k < length ?rs \<and> num_iters_of P (?rs ! k) = maxIterations P}"
  proof (rule set_eqI)
    fix j :: int
    show "j \<in> {j. 0 \<le> j \<and> j < 0 + int (length ?rs) \<and>
               num_iters_of P (?rs ! nat (j - 0)) = maxIterations P} \<longleftrightarrow>
          j \<in> {int k |k. k < length ?rs \<and> num_iters_of P (?rs ! k) = maxIterations P}"
    proof
      assume "j \<in> {j. 0 \<le> j \<and> j < 0 + int (length ?rs) \<and>
               num_iters_of P (?rs ! nat (j - 0)) = maxIterations P}"
      then have "j = int (nat j)" "nat j < length ?rs"
        "num_iters_of P (?rs ! nat j) = maxIterations P"
        by (simp_all add: nat_less_iff)
      then show "j \<in> {int k |k. k < length ?rs \<and> num_iters_of P (?rs ! k) = maxIterations P}"
        by blast
    next
      assume "j \<in> {int k |k. k < length ?rs \<and> num_iters_of P (?rs ! k) = maxIterations P}"
      then show "j \<in> {j. 0 \<le> j \<and> j < 0 + int (length ?rs) \<and>
               num_iters_of P (?rs ! nat (j - 0)) = maxIterations P}"
        by auto
    qed
  qed
  finally show "set (warn_frames (console s)) =
        {int k |k. k < length ?rs \<and> num_iters_of P (?rs ! k) = maxIterations P}" .
next
  assume "sm_addFrame K P c frame = Inr (r, c') \<and> l < length (optimizerStatistics r) \<and>
    numIterations (optimizerStatistics r ! l) = maxIterations P"
  then show "\<not> converged (optimizerStatistics r ! l)"
    using sm_addFrame_cap[of K P c frame r c' "optimizerStatistics r ! l"] by simp
qed

theorem warning_iff_cap_at_maxTestLevel_witness:
  "main engine_env default_options engine_params Uninitialized = Inr (engine_final, []) \<and>
   run_results engine_env 1000 True 0 Uninitialized = [example_first, example_moved] \<and>
   num_iters_of engine_params example_first = 0 \<and>
   num_iters_of engine_params example_moved = maxIterations engine_params \<and>
   set (warn_frames (console engine_final)) = {1} \<and>
   sm_addFrame example_kernels engine_params example_keyframe 5 =
     Inr (example_moved, example_keyframe_moved) \<and>
   numIterations (optimizerStatistics example_moved ! 0) = maxIterations engine_params \<and>
   converged (optimizerStatistics example_moved ! 0) = False"
proof -
  note t = warning_iff_cap_at_maxTestLevel[where e=engine_env and opts=default_options
      and P=engine_params and v=Uninitialized and s=engine_final and files="[]"
      and K=example_kernels and c=example_keyframe and frame=5 and r=example_moved
      and c'=example_keyframe_moved and l=0]
  have n: "opt_numframes default_options = 1000" "(\<not> opt_dontshow default_options) = True"
    by (simp_all add: default_options_def)
  have i0: "num_iters_of engine_params example_first = 0"
    by (simp add: num_iters_of_def engine_params_simps example_first_def)
  have i1: "num_iters_of engine_params example_moved = maxIterations engine_params"
    by (simp add: num_iters_of_def engine_params_simps example_moved_def)
  let ?W = "{int k |k. k < length [example_first, example_moved] \<and>
          num_iters_of engine_params ([example_first, example_moved] ! k) = maxIterations engine_params}"
  from t[THEN conjunct1, THEN mp, OF example_engine_main]
  have s: "set (warn_frames (console engine_final)) = ?W"
    unfolding n example_engine_results .
  have w: "?W = {1}"
  proof (rule set_eqI)
    fix j :: int
    show "j \<in> ?W \<longleftrightarrow> j \<in> {1}"
    proof
      assume "j \<in> ?W"
      then obtain k where k: "j = int k" "k < 2"
        "num_iters_of engine_params ([example_first, example_moved] ! k) = maxIterations engine_params"
        by auto
      from k(2) have "k = 0 \<or> k = 1" by arith
      with k(3) i0 have "k = 1" by (auto simp: engine_params_simps)
      with k(1) show "j \<in> {1}" by simp
    next
      assume "j \<in> {1}"
      then have "j = int 1" by simp
      moreover have "(1::nat) < length [example_first, example_moved]" by simp
      moreover have "num_iters_of engine_params ([example_first, example_moved] ! 1) =
          maxIterations engine_params"
        using i1 by simp
      ultimately show "j \<in> ?W" by blast
    qed
  qed
  have a: "set (warn_frames (console engine_final)) = {1}"
    using s w by simp
  have c: "numIterations (optimizerStatistics example_moved ! 0) = maxIterations engine_params"
    by (simp add: example_moved_def engine_params_simps)
  have l: "0 < length (optimizerStatistics example_moved)"
    by (simp add: example_moved_def)
  from t[THEN conjunct2, THEN mp, OF conjI[OF example_engine_moved conjI[OF l c]]]
  have b: "converged (optimizerStatistics example_moved ! 0) = False" by simp
  show ?thesis
    using example_engine_main example_engine_results i0 i1 a example_engine_moved c b
    by (intro conjI)
qed

text \<open>
  C2. In a run that writes output, each of the three listings is written exactly when its
  own stream opens. A listing that is written holds one entry per result that
  \<^verbatim>\<open>addFrame\<close> returned, each followed by a newline, in the order of the calls: entry
  \<open>k\<close> of the poses is the printed pose of the \<open>k\<close>-th result, entry \<open>k\<close> of the iteration
  counts its iteration count at \<open>maxTestLevel\<close>, entry \<open>k\<close> of the times the time of frame
  \<open>k\<close>. The entries of the iteration counts are its lines; the entries of the poses and of
  the times are their lines when no pose and no time prints a newline.
\<close>

theorem listings_entry_per_frame:
  assumes run: "main e opts P v = Inr (s, files)"
    and out: "opt_output opts \<noteq> []"
  shows "file_content files (opt_output opts @ ''_poses.txt'') =
           (if is_open e (opt_output opts @ ''_poses.txt'')
            then Some (concat (map (\<lambda>r. show_pose e (pose r) @ [newline])
                   (run_results e (opt_numframes opts) (\<not> opt_dontshow opts) 0 v)))
            else None) \<and>
         file_content files (opt_output opts @ ''_iterations.txt'') =
           (if is_open e (opt_output opts @ ''_iterations.txt'')
            then Some (concat (map (\<lambda>r. show_int (num_iters_of P r) @ [newline])
                   (run_results e (opt_numframes opts) (\<not> opt_dontshow opts) 0 v)))
            else None) \<and>
         file_content files (opt_output opts @ ''_time.txt'') =
           (if is_open e (opt_output opts @ ''_time.txt'')
            then Some (concat (map (\<lambda>k. show_float e (f_of_d e (timer e (int k))) @ [newline])
                   [0..<length (run_results e (opt_numframes opts) (\<not> opt_dontshow opts) 0 v)]))
            else None) \<and>
         lines_of (concat (map (\<lambda>r. show_int (num_iters_of P r) @ [newline])
             (run_results e (opt_numframes opts) (\<not> opt_dontshow opts) 0 v))) =
           map (\<lambda>r. show_int (num_iters_of P r))
             (run_results e (opt_numframes opts) (\<not> opt_dontshow opts) 0 v) \<and>
         ((\<forall>r\<in>set (run_results e (opt_numframes opts) (\<not> opt_dontshow opts) 0 v).
             newline \<notin> set (show_pose e (pose r))) \<longrightarrow>
          lines_of (concat (map (\<lambda>r. show_pose e (pose r) @ [newline])
              (run_results e (opt_numframes opts) (\<not> opt_dontshow opts) 0 v))) =
            map (\<lambda>r. show_pose e (pose r))
              (run_results e (opt_numframes opts) (\<not> opt_dontshow opts) 0 v)) \<and>
         ((\<forall>k<length (run_results e (opt_numframes opts) (\<not> opt_dontshow opts) 0 v).
             newline \<notin> set (show_float e (f_of_d e (timer e (int k))))) \<longrightarrow>
          lines_of (concat (map (\<lambda>k. show_float e (f_of_d e (timer e (int k))) @ [newline])
              [0..<length (run_results e (opt_numframes opts) (\<not> opt_dontshow opts) 0 v)])) =
            map (\<lambda>k. show_float e (f_of_d e (timer e (int k))))
              [0..<length (run_results e (opt_numframes opts) (\<not> opt_dontshow opts) 0 v)])"
proof -
  let ?rs = "run_results e (opt_numframes opts) (\<not> opt_dontshow opts) 0 v"
  let ?o = "opt_output opts"
  note f = main_fields[OF run]
  have files: "files = WriteCameraPath (?o @ ''_path.txt'') (trajectory s) #
         write_listing e (?o @ ''_poses.txt'') (map (show_pose e) (trajectory s)) @
         write_listing e (?o @ ''_iterations.txt'') (map show_int (iterations s)) @
         write_listing e (?o @ ''_time.txt'') (map (show_float e) (time_ms s))"
    using f(7) out by (simp add: write_results_def)
  have p: "concat (map (\<lambda>x. x @ [newline]) (map (show_pose e) (trajectory s))) =
      concat (map (\<lambda>r. show_pose e (pose r) @ [newline]) ?rs)"
    unfolding f(1) by (simp add: comp_def)
  have i: "concat (map (\<lambda>x. x @ [newline]) (map show_int (iterations s))) =
      concat (map (\<lambda>r. show_int (num_iters_of P r) @ [newline]) ?rs)"
    unfolding f(2) by (simp add: comp_def)
  have t: "concat (map (\<lambda>x. x @ [newline]) (map (show_float e) (time_ms s))) =
      concat (map (\<lambda>k. show_float e (f_of_d e (timer e (int k))) @ [newline]) [0..<length ?rs])"
    unfolding f(3) by (simp add: comp_def)
  have c1: "file_content files (?o @ ''_poses.txt'') =
      (if is_open e (?o @ ''_poses.txt'')
       then Some (concat (map (\<lambda>r. show_pose e (pose r) @ [newline]) ?rs)) else None)"
    unfolding p[symmetric]
    by (simp add: files file_content_listing file_content_listing_last del: map_map)
  have c2: "file_content files (?o @ ''_iterations.txt'') =
      (if is_open e (?o @ ''_iterations.txt'')
       then Some (concat (map (\<lambda>r. show_int (num_iters_of P r) @ [newline]) ?rs)) else None)"
    unfolding i[symmetric]
    by (simp add: files file_content_listing file_content_listing_last del: map_map)
  have c3: "file_content files (?o @ ''_time.txt'') =
      (if is_open e (?o @ ''_time.txt'')
       then Some (concat (map (\<lambda>k. show_float e (f_of_d e (timer e (int k))) @ [newline])
              [0..<length ?rs])) else None)"
    unfolding t[symmetric]
    by (simp add: files file_content_listing file_content_listing_last del: map_map)
  note l = lines_of_entries
  have l2: "lines_of (concat (map (\<lambda>r. show_int (num_iters_of P r) @ [newline]) ?rs)) =
      map (\<lambda>r. show_int (num_iters_of P r)) ?rs"
    using l[of ?rs "\<lambda>r. show_int (num_iters_of P r)"] by (simp add: show_int_no_newline)
  have l1: "(\<forall>r\<in>set ?rs. newline \<notin> set (show_pose e (pose r))) \<longrightarrow>
      lines_of (concat (map (\<lambda>r. show_pose e (pose r) @ [newline]) ?rs)) =
        map (\<lambda>r. show_pose e (pose r)) ?rs"
    using l[of ?rs "\<lambda>r. show_pose e (pose r)"] by blast
  have l3: "(\<forall>k<length ?rs. newline \<notin> set (show_float e (f_of_d e (timer e (int k))))) \<longrightarrow>
      lines_of (concat (map (\<lambda>k. show_float e (f_of_d e (timer e (int k))) @ [newline])
          [0..<length ?rs])) =
        map (\<lambda>k. show_float e (f_of_d e (timer e (int k)))) [0..<length ?rs]"
    using l[of "[0..<length ?rs]" "\<lambda>k. show_float e (f_of_d e (timer e (int k)))"] by simp
  from c1 c2 c3 l2 l1 l3 show ?thesis by (intro conjI)
qed

theorem listings_entry_per_frame_witness:
  "main closed_env (default_options\<lparr>opt_output := ''out''\<rparr>) example_params 0 =
     Inr (example_written, closed_files) \<and>
   file_content closed_files ''out_poses.txt'' = Some example_pose_text \<and>
   file_content closed_files ''out_iterations.txt'' = None \<and>
   file_content closed_files ''out_time.txt'' = Some example_time_text \<and>
   lines_of example_pose_text = [''0'', ''10'', ''20''] \<and>
   lines_of example_time_text = [''20'', ''21'', ''22''] \<and>
   lines_of example_iteration_text = [''7'', ''50'', ''7'']"
proof -
  let ?opts = "default_options\<lparr>opt_output := ''out''\<rparr>"
  let ?rs = "[example_result 0, example_result 1, example_result 2]"
  have n: "opt_numframes ?opts = 1000" "(\<not> opt_dontshow ?opts) = True" "opt_output ?opts = ''out''"
    by (simp_all add: default_options_def)
  have h0: "opt_output ?opts \<noteq> []" by (simp add: n)
  have fmt: "show_pose closed_env = show_int" "show_float closed_env = show_int"
    "f_of_d closed_env = id" "timer closed_env = (\<lambda>i. 20 + i)"
    "is_open closed_env = (\<lambda>name. name \<noteq> ''out_iterations.txt'')"
    by (simp_all add: closed_env_def example_env_def)
  have ps: "concat (map (\<lambda>r. show_int (pose r) @ [newline]) ?rs) = example_pose_text"
    by (simp add: example_result_def example_show_int example_pose_text_def)
  have its: "concat (map (\<lambda>r. show_int (num_iters_of example_params r) @ [newline]) ?rs) =
      example_iteration_text"
    by (simp add: example_result_def example_params_def num_iters_of_def example_show_int
        example_iteration_text_def)
  have ts: "concat (map (\<lambda>k. show_int (id (20 + int k)) @ [newline]) [0..<length ?rs]) =
      example_time_text"
    by (simp add: example_show_int example_time_text_def upt_conv_Cons del: upt_Suc)
  note t = listings_entry_per_frame[OF example_main_closed h0,
      unfolded n example_results_closed fmt ps its ts]
  have a: "file_content closed_files ''out_poses.txt'' = Some example_pose_text"
    using t[THEN conjunct1] by simp
  have b: "file_content closed_files ''out_iterations.txt'' = None"
    using t[THEN conjunct2, THEN conjunct1] by simp
  have c: "file_content closed_files ''out_time.txt'' = Some example_time_text"
    using t[THEN conjunct2, THEN conjunct2, THEN conjunct1] by simp
  have d: "lines_of example_iteration_text = [''7'', ''50'', ''7'']"
    using t[THEN conjunct2, THEN conjunct2, THEN conjunct2, THEN conjunct1]
    by (simp add: example_result_def example_params_def num_iters_of_def example_show_int)
  have e: "lines_of example_pose_text = [''0'', ''10'', ''20'']"
    using t[THEN conjunct2, THEN conjunct2, THEN conjunct2, THEN conjunct2, THEN conjunct1]
    by (simp add: example_result_def example_show_int newline_def)
  have q: "\<forall>k<length ?rs. newline \<notin> set (show_int (id (20 + int k)))"
    by (simp add: show_int_no_newline)
  have f: "lines_of example_time_text = [''20'', ''21'', ''22'']"
    using t[THEN conjunct2, THEN conjunct2, THEN conjunct2, THEN conjunct2, THEN conjunct2,
        THEN mp, OF q]
    by (simp add: example_show_int upt_conv_Cons del: upt_Suc)
  from example_main_closed a b c d e f show ?thesis by (intro conjI)
qed

text \<open>
  The listings are not parallel in every run that writes output. When the stream of the
  iteration counts does not open, the run writes three lines of poses and three of times
  and no iteration counts at all; when a pose prints on two lines, the poses have six
  lines for three processed frames and three iteration counts.
\<close>

theorem listings_parallel_counterexample:
  "main closed_env (default_options\<lparr>opt_output := ''out''\<rparr>) example_params 0 =
     Inr (example_written, closed_files) \<and>
   file_content closed_files ''out_poses.txt'' = Some example_pose_text \<and>
   length (lines_of example_pose_text) = 3 \<and>
   file_content closed_files ''out_iterations.txt'' = None \<and>
   file_content closed_files ''out_time.txt'' = Some example_time_text \<and>
   length (lines_of example_time_text) = 3 \<and>
   main two_line_env (default_options\<lparr>opt_output := ''out''\<rparr>) example_params 0 =
     Inr (example_written, two_line_files) \<and>
   file_content two_line_files ''out_poses.txt'' = Some two_line_pose_text \<and>
   length (lines_of two_line_pose_text) = 6 \<and>
   file_content two_line_files ''out_iterations.txt'' = Some example_iteration_text \<and>
   length (lines_of example_iteration_text) = 3 \<and>
   length (run_results two_line_env 1000 True 0 0) = 3"
proof -
  have r: "length (run_results two_line_env 1000 True 0 0) = 3"
    by (simp add: run_results.simps two_line_env_def example_env_def key_q_def)
  have f: "file_content closed_files ''out_poses.txt'' = Some example_pose_text"
    "file_content closed_files ''out_iterations.txt'' = None"
    "file_content closed_files ''out_time.txt'' = Some example_time_text"
    "file_content two_line_files ''out_poses.txt'' = Some two_line_pose_text"
    "file_content two_line_files ''out_iterations.txt'' = Some example_iteration_text"
    by (simp_all add: closed_files_def two_line_files_def)
  show ?thesis
    using example_main_closed example_main_two_line f r
    by (simp add: example_lines)
qed

text \<open>
  C3. After N successful calls of \<^verbatim>\<open>addFrame\<close> the trajectory has exactly N poses. The
  loop, started with any trajectory, leaves it as it was and adds behind it the pose of
  every result, in the order of the calls: one pose per processed frame, nothing removed,
  reordered or changed. A run of \<^verbatim>\<open>main\<close> that returns ends with the poses of its
  results, as many as \<^verbatim>\<open>addFrame\<close> returned.
\<close>

theorem trajectory_append_only:
  "(main_loop e P m sh i s = Inr s2 \<longrightarrow>
      trajectory s2 = trajectory s @ map pose (run_results e m sh i (vo s)) \<and>
      take (length (trajectory s)) (trajectory s2) = trajectory s \<and>
      length (trajectory s2) = length (trajectory s) + length (run_results e m sh i (vo s))) \<and>
   (main e opts P v = Inr (s3, files) \<longrightarrow>
      trajectory s3 = map pose (run_results e (opt_numframes opts) (\<not> opt_dontshow opts) 0 v) \<and>
      length (trajectory s3) = length (run_results e (opt_numframes opts) (\<not> opt_dontshow opts) 0 v))"
proof (intro conjI impI)
  assume l: "main_loop e P m sh i s = Inr s2"
  from main_loop_run[OF l]
  show t: "trajectory s2 = trajectory s @ map pose (run_results e m sh i (vo s))" by simp
  show "take (length (trajectory s)) (trajectory s2) = trajectory s" by (simp add: t)
  show "length (trajectory s2) = length (trajectory s) + length (run_results e m sh i (vo s))"
    by (simp add: t)
next
  assume "main e opts P v = Inr (s3, files)"
  from main_run[OF this] obtain s0 where
    l: "main_loop e P (opt_numframes opts) (\<not> opt_dontshow opts) 0 (init_locals e v) = Inr s0"
    and s: "trajectory s3 = trajectory s0"
    by auto
  from main_loop_run[OF l] s
  show t: "trajectory s3 = map pose (run_results e (opt_numframes opts) (\<not> opt_dontshow opts) 0 v)"
    by (simp add: init_locals_simps)
  show "length (trajectory s3) = length (run_results e (opt_numframes opts) (\<not> opt_dontshow opts) 0 v)"
    by (simp add: t)
qed

theorem trajectory_append_only_witness:
  "main_loop example_env example_params 1000 True 0 (init_locals example_env 0) = Inr example_final \<and>
   main example_env default_options example_params 0 =
     Inr (example_final\<lparr>console := console example_final @
            [Stdout [newline], Info (''done'' @ [newline])]\<rparr>, []) \<and>
   trajectory example_final = [0, 10, 20] \<and>
   map pose (run_results example_env 1000 True 0 0) = [0, 10, 20] \<and>
   length (trajectory example_final) = 0 + length (run_results example_env 1000 True 0 0) \<and>
   length (run_results example_env 1000 True 0 0) = 3"
proof -
  note t = trajectory_append_only[of example_env example_params 1000 True 0
      "init_locals example_env 0" example_final default_options 0
      "example_final\<lparr>console := console example_final @
            [Stdout [newline], Info (''done'' @ [newline])]\<rparr>" "[]"]
  from t example_loop have
    a: "trajectory example_final = [] @ map pose (run_results example_env 1000 True 0 0)" and
    b: "length (trajectory example_final) = 0 + length (run_results example_env 1000 True 0 0)"
    by (simp_all add: init_locals_simps)
  have c: "trajectory example_final = [0, 10, 20]" by (simp add: example_final_def)
  from b c have d: "length (run_results example_env 1000 True 0 0) = 3" by simp
  from a c have a': "map pose (run_results example_env 1000 True 0 0) = [0, 10, 20]" by simp
  from example_loop example_main c a' b d show ?thesis by blast
qed



text \<open>
  C5. Every result of the engine has one statistics entry per configured pyramid level.
  Hence, when \<open>maxTestLevel\<close> is a level index (\<open>0 \<le> maxTestLevel < numPyramidLevels\<close>),
  every result of a run of the driver on this engine has that length, and the access
  \<^verbatim>\<open>result.optimizerStatistics[maxTestLevel]\<close> is never out of range.
\<close>

theorem statistics_one_per_level:
  "(controller_ok P c \<and> sm_addFrame K P c frame = Inr (r, c') \<longrightarrow>
      int (length (optimizerStatistics r)) = numPyramidLevels P \<and> controller_ok P c') \<and>
   (addFrame e = sm_addFrame K P \<and> controller_ok P (vo s) \<and>
    0 \<le> maxTestLevel P \<and> maxTestLevel P < numPyramidLevels P \<longrightarrow>
      (\<forall>r\<in>set (run_results e m sh i (vo s)).
         int (length (optimizerStatistics r)) = numPyramidLevels P) \<and>
      (\<forall>j. main_loop e P m sh i s \<noteq> Inl (StatsIndexOutOfRange j)))"
proof (intro conjI impI)
  assume "controller_ok P c \<and> sm_addFrame K P c frame = Inr (r, c')"
  then have ok: "controller_ok P c" and call: "sm_addFrame K P c frame = Inr (r, c')"
    by simp_all
  show "int (length (optimizerStatistics r)) = numPyramidLevels P"
    by (rule sm_addFrame_result(1)[OF call ok])
  show "controller_ok P c'"
    by (rule sm_addFrame_result(2)[OF call ok])
next
  assume a: "addFrame e = sm_addFrame K P \<and> controller_ok P (vo s) \<and>
    0 \<le> maxTestLevel P \<and> maxTestLevel P < numPyramidLevels P"
  have step: "controller_ok P v' \<and> int (length (optimizerStatistics r)) = numPyramidLevels P"
    if "controller_ok P v" "addFrame e v fr = Inr (r, v')" for v fr r v'
    using that a sm_addFrame_result[of K P v fr r v'] by simp
  show "\<forall>r\<in>set (run_results e m sh i (vo s)).
         int (length (optimizerStatistics r)) = numPyramidLevels P"
    using a by (intro run_results_all[where Inv="controller_ok P"] step) simp_all
  show "\<forall>j. main_loop e P m sh i s \<noteq> Inl (StatsIndexOutOfRange j)"
  proof
    fix j
    have engine: "addFrame e v fr \<noteq> Inl (StatsIndexOutOfRange j)" for v fr
      using a sm_addFrame_error[of K P v fr "StatsIndexOutOfRange j"] by auto
    have step': "controller_ok P v' \<and> maxTestLevel P < int (length (optimizerStatistics r))"
      if "controller_ok P v" "addFrame e v fr = Inr (r, v')" for v fr r v'
      using step[OF that] a by simp
    show "main_loop e P m sh i s \<noteq> Inl (StatsIndexOutOfRange j)"
      using a by (intro main_loop_in_bounds[where Inv="controller_ok P"] step' engine) simp_all
  qed
qed

theorem statistics_one_per_level_witness:
  "sm_addFrame example_kernels engine_params example_keyframe 5 =
     Inr (example_moved, example_keyframe_moved) \<and>
   int (length (optimizerStatistics example_moved)) = numPyramidLevels engine_params \<and>
   controller_ok engine_params example_keyframe_moved \<and>
   map (\<lambda>r. int (length (optimizerStatistics r))) (run_results engine_env 1000 True 0 Uninitialized) =
     [2, 2] \<and>
   main_loop engine_env engine_params 1000 True 0 (init_locals engine_env Uninitialized) \<noteq>
     Inl (StatsIndexOutOfRange 1)"
proof -
  note t = statistics_one_per_level[where P=engine_params and K=example_kernels
      and c=example_keyframe and frame=5 and r=example_moved
      and c'=example_keyframe_moved
      and e=engine_env and s="init_locals engine_env Uninitialized" and m=1000 and sh=True and i=0]
  have ok: "controller_ok engine_params example_keyframe"
    by (simp add: example_keyframe_def engine_params_simps)
  from t ok example_engine_moved have
    a: "int (length (optimizerStatistics example_moved)) = numPyramidLevels engine_params"
    and b: "controller_ok engine_params example_keyframe_moved"
    by simp_all
  have h: "addFrame engine_env = sm_addFrame example_kernels engine_params \<and>
      controller_ok engine_params (vo (init_locals engine_env Uninitialized)) \<and>
      0 \<le> maxTestLevel engine_params \<and> maxTestLevel engine_params < numPyramidLevels engine_params"
    by (simp add: engine_env_def init_locals_simps engine_params_simps)
  from t h have
    c: "\<forall>r\<in>set (run_results engine_env 1000 True 0 (vo (init_locals engine_env Uninitialized))).
         int (length (optimizerStatistics r)) = numPyramidLevels engine_params"
    and d: "\<forall>j. main_loop engine_env engine_params 1000 True 0 (init_locals engine_env Uninitialized) \<noteq>
         Inl (StatsIndexOutOfRange j)"
    by blast+
  from c have c': "map (\<lambda>r. int (length (optimizerStatistics r)))
      (run_results engine_env 1000 True 0 Uninitialized) = [2, 2]"
    by (simp add: init_locals_simps example_engine_results engine_params_simps)
  from a b c' d example_engine_moved show ?thesis by blast
qed

text \<open>
  C6. The warning looks at level \<open>maxTestLevel\<close> only: a frame whose result reaches
  \<open>maxIterations\<close> at some other level \<open>l\<close>, and not at \<open>maxTestLevel\<close>, adds no warning
  to the console.
\<close>

theorem warning_only_at_maxTestLevel:
  assumes "body e P i s frame = Inr s1"
    and "addFrame e (vo s) frame = Inr (r, v')"
    and "l < length (optimizerStatistics r)" and "l \<noteq> nat (maxTestLevel P)"
    and "numIterations (optimizerStatistics r ! l) = maxIterations P"
    and "numIterations (optimizerStatistics r ! nat (maxTestLevel P)) \<noteq> maxIterations P"
  shows "warn_frames (console s1) = warn_frames (console s)"
proof -
  from body_fields[OF assms(1)] assms(2) have
    "console s1 = console s @ warn_events P i (num_iters_of P r) @
          [Progress (i - 1) (timer e i)
             (d_div e (d_of_int e (i - 1)) (d_add e (total_time s) (d_div e (timer e i) (d_thousand e))))
             (num_iters_of P r) (keyFramingReason r) 0]"
    by auto
  with assms(6) show ?thesis
    by (simp add: warn_frames_append warn_frames_warn_events num_iters_of_def)
qed

theorem warning_only_at_maxTestLevel_witness:
  "\<exists>s1. body example_env example_params 0 (init_locals example_env 0) 0 = Inr s1 \<and>
      numIterations (optimizerStatistics (example_result 0) ! 1) = maxIterations example_params \<and>
      numIterations (optimizerStatistics (example_result 0) ! nat (maxTestLevel example_params)) = 7 \<and>
      warn_frames (console s1) = []"
proof -
  have "warn_frames (console \<lparr>vo = Suc 0, trajectory = [0::int], iterations = [7], time_ms = [20::int],
          total_time = 0, console = [Progress (- 1) 20 0 7 KeepOldKeyframe 0]\<rparr>) =
        warn_frames (console (init_locals example_env 0))"
    by (rule warning_only_at_maxTestLevel[OF example_body0, where r="example_result 0" and v'="Suc 0" and l=1])
      (simp_all add: example_env_def example_params_def example_result_def init_locals_simps)
  with example_body0 show ?thesis
    by (simp add: example_params_def example_result_def init_locals_simps)
qed

text \<open>
  C7. Every result of the engine carries exactly one keyframing reason. When it is
  \<open>KeepOldKeyframe\<close>, the active keyframe (indeed the whole controller) is the same after
  the call; otherwise the frame of the call is the new active keyframe.
\<close>

theorem keep_old_keyframe_unchanged:
  assumes "sm_addFrame K P c frame = Inr (r, c')"
  shows "(\<exists>!reason. keyFramingReason r = reason) \<and>
         keyFramingReason r \<in>
           {KeepOldKeyframe, ForceKeyframe MaxTranslation, ForceKeyframe MaxRotation,
            ForceKeyframe LowTrackingQuality, ForceKeyframe MaxIterationsAtFinestLevel} \<and>
         (keyFramingReason r = KeepOldKeyframe \<longrightarrow>
            active_keyframe c' = active_keyframe c \<and> c' = c) \<and>
         (keyFramingReason r \<noteq> KeepOldKeyframe \<longrightarrow>
            (\<exists>pyramid. build K frame (numPyramidLevels P) = Inr pyramid \<and>
               active_keyframe c' = Some \<lparr>kf_frame = frame, kf_pyramid = pyramid\<rparr>))"
proof (intro conjI impI)
  show "\<exists>!reason. keyFramingReason r = reason" by simp
  show "keyFramingReason r \<in>
           {KeepOldKeyframe, ForceKeyframe MaxTranslation, ForceKeyframe MaxRotation,
            ForceKeyframe LowTrackingQuality, ForceKeyframe MaxIterationsAtFinestLevel}"
  proof (cases "keyFramingReason r")
    case KeepOldKeyframe
    then show ?thesis by simp
  next
    case (ForceKeyframe why)
    then show ?thesis by (cases why) simp_all
  qed
next
  assume "keyFramingReason r = KeepOldKeyframe"
  from sm_addFrame_keyframe(1)[OF assms this]
  show "active_keyframe c' = active_keyframe c" "c' = c" by simp_all
next
  assume "keyFramingReason r \<noteq> KeepOldKeyframe"
  from sm_addFrame_keyframe(2)[OF assms this]
  show "\<exists>pyramid. build K frame (numPyramidLevels P) = Inr pyramid \<and>
               active_keyframe c' = Some \<lparr>kf_frame = frame, kf_pyramid = pyramid\<rparr>" .
qed

theorem keep_old_keyframe_unchanged_witness:
  "sm_addFrame example_kernels engine_params example_keyframe 0 = Inr (example_same, example_keyframe) \<and>
   keyFramingReason example_same = KeepOldKeyframe \<and>
   active_keyframe example_keyframe = Some \<lparr>kf_frame = 0, kf_pyramid = [0, 0]\<rparr> \<and>
   sm_addFrame example_kernels engine_params example_keyframe 5 =
     Inr (example_moved, example_keyframe_moved) \<and>
   keyFramingReason example_moved = ForceKeyframe MaxTranslation \<and>
   build example_kernels 5 (numPyramidLevels engine_params) = Inr [5, 2] \<and>
   active_keyframe example_keyframe_moved = Some \<lparr>kf_frame = 5, kf_pyramid = [5, 2]\<rparr>"
proof -
  have k: "keyFramingReason example_same = KeepOldKeyframe"
    by (simp add: example_same_def)
  from keep_old_keyframe_unchanged[OF example_engine_same] k
  have a: "active_keyframe example_keyframe = active_keyframe example_keyframe \<and>
      example_keyframe = example_keyframe"
    by blast
  have a': "active_keyframe example_keyframe = Some \<lparr>kf_frame = 0, kf_pyramid = [0, 0]\<rparr>"
    by (simp add: example_keyframe_def)
  have f: "keyFramingReason example_moved = ForceKeyframe MaxTranslation"
    by (simp add: example_moved_def)
  from keep_old_keyframe_unchanged[OF example_engine_moved] f
  obtain pyramid where
    b: "build example_kernels 5 (numPyramidLevels engine_params) = Inr pyramid"
    and c: "active_keyframe example_keyframe_moved =
      Some \<lparr>kf_frame = 5, kf_pyramid = pyramid\<rparr>"
    by auto
  from c have p: "pyramid = [5, 2]" by (simp add: example_keyframe_moved_def)
  from b c a' k f example_engine_same example_engine_moved show ?thesis
    unfolding p by blast
qed

text \<open>
  C8. The output prefix is empty by default. With an empty prefix a run writes no file.
  The prefix changes nothing else: a run that fails with the empty prefix fails the same
  way with any prefix, and a run that returns with the empty prefix returns with any
  prefix \<open>out\<close>, with the same engine state, trajectory, iteration counts and times; the
  console gains the line about the prefix, and files are written exactly when \<open>out\<close> is
  not empty.
\<close>

theorem no_output_without_prefix:
  "opt_output default_options = [] \<and>
   (opt_output opts = [] \<and> main e opts P v = Inr (s, files) \<longrightarrow> files = []) \<and>
   (main e (opts\<lparr>opt_output := []\<rparr>) P v = Inl err \<longrightarrow>
      main e (opts\<lparr>opt_output := out\<rparr>) P v = Inl err) \<and>
   (main e (opts\<lparr>opt_output := []\<rparr>) P v = Inr (s0, files0) \<longrightarrow>
      (\<exists>s1 files1. main e (opts\<lparr>opt_output := out\<rparr>) P v = Inr (s1, files1) \<and>
         vo s1 = vo s0 \<and> trajectory s1 = trajectory s0 \<and> iterations s1 = iterations s0 \<and>
         time_ms s1 = time_ms s0 \<and> total_time s1 = total_time s0 \<and>
         console s1 = console s0 @
           (if out = [] then [] else [Stdout (''writing results to prefix '' @ out @ [newline])]) \<and>
         (files1 = [] \<longleftrightarrow> out = [])))"
proof (intro conjI impI)
  show "opt_output default_options = []" by (simp add: default_options_def)
  show "opt_output opts = [] \<and> main e opts P v = Inr (s, files) \<Longrightarrow> files = []"
    by (auto simp: main_def Let_def write_results_def split: if_splits sum.splits)
  show "main e (opts\<lparr>opt_output := []\<rparr>) P v = Inl err \<Longrightarrow>
      main e (opts\<lparr>opt_output := out\<rparr>) P v = Inl err"
    by (auto simp: main_def Let_def split: if_splits sum.splits prod.splits)
next
  assume a: "main e (opts\<lparr>opt_output := []\<rparr>) P v = Inr (s0, files0)"
  from main_run[OF a] obtain t where
    n: "0 \<le> opt_numframes opts" and
    l: "main_loop e P (opt_numframes opts) (\<not> opt_dontshow opts) 0 (init_locals e v) = Inr t" and
    s: "s0 = t\<lparr>console := console t @ [Stdout [newline], Info (''done'' @ [newline])]\<rparr>"
    by (auto simp: write_results_empty)
  let ?s1 = "t\<lparr>console := console t @ [Stdout [newline], Info (''done'' @ [newline])] @
               fst (write_results e out t)\<rparr>"
  have m: "main e (opts\<lparr>opt_output := out\<rparr>) P v = Inr (?s1, snd (write_results e out t))"
    using n l by (simp add: main_def Let_def split: prod.splits)
  have "vo ?s1 = vo s0" "trajectory ?s1 = trajectory s0" "iterations ?s1 = iterations s0"
    "time_ms ?s1 = time_ms s0" "total_time ?s1 = total_time s0"
    "console ?s1 = console s0 @
           (if out = [] then [] else [Stdout (''writing results to prefix '' @ out @ [newline])])"
    "snd (write_results e out t) = [] \<longleftrightarrow> out = []"
    by (simp_all add: s write_results_def)
  with m show "\<exists>s1 files1. main e (opts\<lparr>opt_output := out\<rparr>) P v = Inr (s1, files1) \<and>
         vo s1 = vo s0 \<and> trajectory s1 = trajectory s0 \<and> iterations s1 = iterations s0 \<and>
         time_ms s1 = time_ms s0 \<and> total_time s1 = total_time s0 \<and>
         console s1 = console s0 @
           (if out = [] then [] else [Stdout (''writing results to prefix '' @ out @ [newline])]) \<and>
         (files1 = [] \<longleftrightarrow> out = [])"
    by blast
qed

theorem no_output_without_prefix_witness:
  "opt_output default_options = [] \<and>
   main example_env default_options example_params 0 =
     Inr (example_final\<lparr>console := console example_final @
            [Stdout [newline], Info (''done'' @ [newline])]\<rparr>, []) \<and>
   main example_env (default_options\<lparr>opt_numframes := - 1, opt_output := []\<rparr>) example_params 0 =
     Inl LengthError \<and>
   main example_env (default_options\<lparr>opt_numframes := - 1, opt_output := ''out''\<rparr>) example_params 0 =
     Inl LengthError \<and>
   (\<exists>s1 files1. main example_env (default_options\<lparr>opt_output := ''out''\<rparr>) example_params 0 =
        Inr (s1, files1) \<and>
      trajectory s1 = [0, 10, 20] \<and> iterations s1 = [7, 50, 7] \<and> time_ms s1 = [20, 21, 22] \<and>
      files1 \<noteq> [])"
proof -
  have n: "main example_env (default_options\<lparr>opt_numframes := - 1, opt_output := []\<rparr>) example_params 0 =
     Inl LengthError"
    by (simp add: main_def default_options_def)
  from no_output_without_prefix[where e=example_env and P=example_params and v=0
      and opts="default_options\<lparr>opt_numframes := - 1\<rparr>" and err=LengthError and out="''out''"] n
  have a: "main example_env (default_options\<lparr>opt_numframes := - 1, opt_output := ''out''\<rparr>) example_params 0 =
     Inl LengthError"
    by simp
  have d: "default_options\<lparr>opt_output := []\<rparr> = default_options"
    by (simp add: default_options_def)
  from no_output_without_prefix[where e=example_env and P=example_params and v=0
      and opts=default_options and out="''out''"
      and ?s0.0="example_final\<lparr>console := console example_final @
            [Stdout [newline], Info (''done'' @ [newline])]\<rparr>" and ?files0.0="[]"] example_main d
  have b: "\<exists>s1 files1. main example_env (default_options\<lparr>opt_output := ''out''\<rparr>) example_params 0 =
        Inr (s1, files1) \<and>
      trajectory s1 = [0, 10, 20] \<and> iterations s1 = [7, 50, 7] \<and> time_ms s1 = [20, 21, 22] \<and>
      files1 \<noteq> []"
    by (auto simp: example_final_def)
  have c: "opt_output default_options = []" by (simp add: default_options_def)
  from a b c n example_main show ?thesis by blast
qed

text \<open>
  C9. The loop is bounded by \<open>numframes\<close>, 1000 by default. \<open>main_loop\<close> is a total
  function (its termination is proved with the measure \<open>max_frames - f_i\<close>), the engine
  returns at most \<open>max_frames\<close> results, the loop stops at once when the counter has
  reached \<open>max_frames\<close>, when the dataset has no frame, or when the user types \<^verbatim>\<open>q\<close>,
  and after a run of \<^verbatim>\<open>main\<close> the trajectory, the iteration counts and the times have at
  most \<open>numframes\<close> entries each.
\<close>

theorem loop_bounded:
  "opt_numframes default_options = 1000 \<and>
   int (length (run_results e m sh 0 v)) \<le> max 0 m \<and>
   (\<not> i < m \<longrightarrow> main_loop e P m sh i s = Inr s) \<and>
   (i < m \<and> getFrame e i = None \<longrightarrow>
      main_loop e P m sh i s = Inr (s\<lparr>console := console s @ [Info (''no more data'' @ [newline])]\<rparr>)) \<and>
   (i < m \<and> getFrame e i = Some frame \<and> sh \<and> key_q = 0xff AND waitKey e i \<longrightarrow>
      main_loop e P m sh i s = Inr s) \<and>
   (main e opts P v = Inr (s3, files) \<longrightarrow>
      length (trajectory s3) = length (run_results e (opt_numframes opts) (\<not> opt_dontshow opts) 0 v) \<and>
      int (length (trajectory s3)) \<le> opt_numframes opts \<and>
      int (length (iterations s3)) \<le> opt_numframes opts \<and>
      int (length (time_ms s3)) \<le> opt_numframes opts)"
proof (intro conjI impI)
  show "opt_numframes default_options = 1000" by (simp add: default_options_def)
  show "int (length (run_results e m sh 0 v)) \<le> max 0 m"
    using run_results_length[of e m sh 0 v] by simp
  show "\<not> i < m \<Longrightarrow> main_loop e P m sh i s = Inr s" by (rule main_loop_stop)
  show "i < m \<and> getFrame e i = None \<Longrightarrow>
      main_loop e P m sh i s = Inr (s\<lparr>console := console s @ [Info (''no more data'' @ [newline])]\<rparr>)"
    by (simp add: main_loop_no_data)
  show "i < m \<and> getFrame e i = Some frame \<and> sh \<and> key_q = 0xff AND waitKey e i \<Longrightarrow>
      main_loop e P m sh i s = Inr s"
    by (simp add: main_loop_quit)
next
  assume a: "main e opts P v = Inr (s3, files)"
  note f = main_fields[OF a]
  show "length (trajectory s3) = length (run_results e (opt_numframes opts) (\<not> opt_dontshow opts) 0 v)"
    by (simp add: f(1))
  from f(6) show "int (length (trajectory s3)) \<le> opt_numframes opts" by (simp add: f(1))
  from f(6) show "int (length (iterations s3)) \<le> opt_numframes opts" by (simp add: f(2))
  from f(6) show "int (length (time_ms s3)) \<le> opt_numframes opts" by (simp add: f(3))
qed

theorem loop_bounded_witness:
  "opt_numframes default_options = 1000 \<and>
   main_loop example_env example_params 3 True 3 example_final = Inr example_final \<and>
   main_loop example_env example_params 1000 True 3 example_final =
     Inr (example_final\<lparr>console := console example_final @ [Info (''no more data'' @ [newline])]\<rparr>) \<and>
   main_loop (example_env\<lparr>waitKey := \<lambda>i. 113\<rparr>) example_params 1000 True 0
       (init_locals example_env 0) = Inr (init_locals example_env 0) \<and>
   int (length (run_results example_env 1000 True 0 0)) \<le> 1000 \<and>
   length (trajectory example_final) = 3 \<and>
   int (length (iterations example_final)) \<le> opt_numframes default_options \<and>
   int (length (time_ms example_final)) \<le> opt_numframes default_options"
proof -
  have a: "main_loop example_env example_params 3 True 3 example_final = Inr example_final"
    using loop_bounded[where i=3 and m=3 and e=example_env and P=example_params and sh=True
        and s=example_final]
    by simp
  have b: "main_loop example_env example_params 1000 True 3 example_final =
     Inr (example_final\<lparr>console := console example_final @ [Info (''no more data'' @ [newline])]\<rparr>)"
    using loop_bounded[where i=3 and m=1000 and e=example_env and P=example_params and sh=True
        and s=example_final]
    by (simp add: example_env_def)
  have c: "main_loop (example_env\<lparr>waitKey := \<lambda>i. 113\<rparr>) example_params 1000 True 0
       (init_locals example_env 0) = Inr (init_locals example_env 0)"
    using loop_bounded[where i=0 and m=1000 and e="example_env\<lparr>waitKey := \<lambda>i. 113\<rparr>"
        and P=example_params and sh=True and s="init_locals example_env 0" and frame=0]
    by (simp add: example_env_def key_q_def)
  have d: "opt_numframes default_options = 1000 \<and>
      int (length (run_results example_env 1000 True 0 0)) \<le> 1000"
    using loop_bounded[where i=0 and m=1000 and e=example_env and sh=True and v=0
        and s=example_final and P=example_params and frame=0 and opts=default_options
        and ?s3.0=example_final and files="[]"]
    by simp
  have e: "int (length (iterations example_final)) \<le> opt_numframes default_options \<and>
      int (length (time_ms example_final)) \<le> opt_numframes default_options"
    using loop_bounded[where i=0 and m=1000 and sh=True and s=example_final and frame=0
        and e=example_env and opts=default_options and P=example_params and v=0
        and ?s3.0="example_final\<lparr>console := console example_final @
            [Stdout [newline], Info (''done'' @ [newline])]\<rparr>" and files="[]"] example_main
    by simp
  have f: "length (trajectory example_final) = 3" by (simp add: example_final_def)
  from a b c d e f show ?thesis by blast
qed

text \<open>
  C10. The progress line of the frame with counter \<open>f_i\<close> is labelled \<open>f_i - 1\<close>, and its
  rate is \<open>f_i - 1\<close> divided by the accumulated time. So the labels of a run are
  \<open>-1, 0, 1, ...\<close>, the first processed frame is shown as frame \<open>-1\<close>, and the recorded
  trajectory, iteration counts and times are those of the frames \<open>0, 1, 2, ...\<close>.
\<close>

theorem progress_label_offset:
  "(body e P i s frame = Inr s1 \<longrightarrow>
      (\<exists>r v'. addFrame e (vo s) frame = Inr (r, v') \<and>
         total_time s1 = d_add e (total_time s) (d_div e (timer e i) (d_thousand e)) \<and>
         last (console s1) =
           Progress (i - 1) (timer e i) (d_div e (d_of_int e (i - 1)) (total_time s1))
             (num_iters_of P r) (keyFramingReason r) 0 \<and>
         progress_labels (console s1) = progress_labels (console s) @ [i - 1])) \<and>
   (main e opts P v = Inr (s3, files) \<longrightarrow>
      progress_labels (console s3) =
        map (\<lambda>k. int k - 1) [0..<length (run_results e (opt_numframes opts) (\<not> opt_dontshow opts) 0 v)] \<and>
      take 1 (progress_labels (console s3)) =
        (if run_results e (opt_numframes opts) (\<not> opt_dontshow opts) 0 v = [] then [] else [- 1]) \<and>
      trajectory s3 = map pose (run_results e (opt_numframes opts) (\<not> opt_dontshow opts) 0 v) \<and>
      iterations s3 = map (num_iters_of P) (run_results e (opt_numframes opts) (\<not> opt_dontshow opts) 0 v) \<and>
      time_ms s3 = map (\<lambda>k. f_of_d e (timer e (int k)))
        [0..<length (run_results e (opt_numframes opts) (\<not> opt_dontshow opts) 0 v)])"
proof (intro conjI impI)
  assume b: "body e P i s frame = Inr s1"
  from body_fields[OF b]
  show "\<exists>r v'. addFrame e (vo s) frame = Inr (r, v') \<and>
         total_time s1 = d_add e (total_time s) (d_div e (timer e i) (d_thousand e)) \<and>
         last (console s1) =
           Progress (i - 1) (timer e i) (d_div e (d_of_int e (i - 1)) (total_time s1))
             (num_iters_of P r) (keyFramingReason r) 0 \<and>
         progress_labels (console s1) = progress_labels (console s) @ [i - 1]"
    by (auto simp: progress_labels_append progress_labels_warn_events)
next
  assume a: "main e opts P v = Inr (s3, files)"
  note f = main_fields[OF a]
  show p: "progress_labels (console s3) =
        map (\<lambda>k. int k - 1) [0..<length (run_results e (opt_numframes opts) (\<not> opt_dontshow opts) 0 v)]"
    by (rule f(5))
  show "take 1 (progress_labels (console s3)) =
        (if run_results e (opt_numframes opts) (\<not> opt_dontshow opts) 0 v = [] then [] else [- 1])"
    unfolding p by (cases "run_results e (opt_numframes opts) (\<not> opt_dontshow opts) 0 v")
      (simp_all add: upt_conv_Cons del: upt_Suc)
  show "trajectory s3 = map pose (run_results e (opt_numframes opts) (\<not> opt_dontshow opts) 0 v)"
    by (rule f(1))
  show "iterations s3 = map (num_iters_of P) (run_results e (opt_numframes opts) (\<not> opt_dontshow opts) 0 v)"
    by (rule f(2))
  show "time_ms s3 = map (\<lambda>k. f_of_d e (timer e (int k)))
        [0..<length (run_results e (opt_numframes opts) (\<not> opt_dontshow opts) 0 v)]"
    by (rule f(3))
qed

theorem progress_label_offset_witness:
  "(\<exists>s1. body example_env example_params 0 (init_locals example_env 0) 0 = Inr s1 \<and>
      last (console s1) = Progress (- 1) 20 0 7 KeepOldKeyframe 0 \<and>
      progress_labels (console s1) = [- 1]) \<and>
   main example_env default_options example_params 0 =
     Inr (example_final\<lparr>console := console example_final @
            [Stdout [newline], Info (''done'' @ [newline])]\<rparr>, []) \<and>
   progress_labels (console example_final @ [Stdout [newline], Info (''done'' @ [newline])]) =
     [- 1, 0, 1] \<and>
   trajectory example_final = [0, 10, 20] \<and> iterations example_final = [7, 50, 7] \<and>
   time_ms example_final = [20, 21, 22]"
proof -
  note t = progress_label_offset[where e=example_env and P=example_params and i=0
      and s="init_locals example_env 0" and frame=0 and opts=default_options and v=0
      and ?s1.0="\<lparr>vo = Suc 0, trajectory = [0::int], iterations = [7], time_ms = [20::int],
          total_time = 0, console = [Progress (- 1) 20 0 7 KeepOldKeyframe 0]\<rparr>"
      and ?s3.0="example_final\<lparr>console := console example_final @
            [Stdout [newline], Info (''done'' @ [newline])]\<rparr>" and files="[]"]
  from t example_body0 have
    "last (console \<lparr>vo = Suc 0, trajectory = [0::int], iterations = [7], time_ms = [20::int],
          total_time = 0, console = [Progress (- 1) 20 0 7 KeepOldKeyframe 0]\<rparr>) =
       Progress (- 1) 20 0 7 KeepOldKeyframe 0"
    by simp
  with example_body0 have a: "\<exists>s1. body example_env example_params 0 (init_locals example_env 0) 0 = Inr s1 \<and>
      last (console s1) = Progress (- 1) 20 0 7 KeepOldKeyframe 0 \<and>
      progress_labels (console s1) = [- 1]"
    by simp
  from t example_main have
    "progress_labels (console example_final @ [Stdout [newline], Info (''done'' @ [newline])]) =
       map (\<lambda>k. int k - 1) [0..<length (run_results example_env 1000 True 0 0)]"
    by (simp add: default_options_def)
  then have b: "progress_labels (console example_final @ [Stdout [newline], Info (''done'' @ [newline])]) =
     [- 1, 0, 1]"
    by (simp add: example_results upt_conv_Cons del: upt_Suc)
  have c: "trajectory example_final = [0, 10, 20] \<and> iterations example_final = [7, 50, 7] \<and>
   time_ms example_final = [20, 21, 22]"
    by (simp add: example_final_def)
  from a b c example_main show ?thesis by blast
qed

end
